theory Spec2Isabelle
  imports Main "HOL-Library.Multiset"
begin

text \<open>
  The pull request watcher fetches the open pull requests of the configured repositories,
  decides for each one from its age, its draft flag and its review count which
  notification it is due, sends the notifications by mail through a pool of workers, and
  reports how many of each kind it sent and which dispatches failed. This theory embeds
  the configuration defaults, the review count, the mail notifier, the rule evaluation of
  \<^verbatim>\<open>processPR\<close> and the worker pool of \<^verbatim>\<open>processPRsConcurrently\<close>, and proves the
  properties the specification claims of them. What the program reads from outside (the
  clock, the GitHub and SMTP servers, the template engine) is an argument of the model.
\<close>

section \<open>Data model\<close>

text \<open>
  Go's \<^verbatim>\<open>time.Duration\<close> is a signed 64-bit count of nanoseconds. The program only
  compares durations and subtracts two clock readings, so durations and clock readings
  are integers here; the one place where the 64-bit range shows (\<^verbatim>\<open>Time.Sub\<close>
  saturates) is written out in \<open>time_Since\<close>. The counters of a run result are
  bounded by the number of pull requests, a slice length, and cannot overflow.
\<close>

type_synonym Duration = int
type_synonym Time = int

definition Millisecond :: Duration where "Millisecond = 1000000"
definition Second :: Duration where "Second = 1000 * Millisecond"
definition Minute :: Duration where "Minute = 60 * Second"
definition Hour :: Duration where "Hour = 60 * Minute"

definition maxDuration :: Duration where "maxDuration = 2 ^ 63 - 1"
definition minDuration :: Duration where "minDuration = - (2 ^ 63)"

text \<open>
  The negation \<^verbatim>\<open>-d\<close> of a duration is 64-bit: it wraps at the least duration, which
  is its own negation.
\<close>

definition negDuration :: "Duration \<Rightarrow> Duration" where
  "negDuration d = (if d = minDuration then minDuration else - d)"

text \<open>\<^verbatim>\<open>time.Since(t)\<close> is \<^verbatim>\<open>time.Now().Sub(t)\<close>; the clock reading is an input.\<close>

definition time_Since :: "Time \<Rightarrow> Time \<Rightarrow> Duration" where
  "time_Since now t =
     (let d = now - t in
      if d > maxDuration then maxDuration
      else if d < minDuration then minDuration
      else d)"

text \<open>
  Errors. \<open>External\<close> is an error value produced outside this repository (the GitHub
  client, the template engine, the SMTP dialer). \<open>Errorf fmt args cause\<close> is
  \<^verbatim>\<open>fmt.Errorf(fmt, args..., cause)\<close>: the format string, its integer arguments and
  the error wrapped by \<^verbatim>\<open>%w\<close>, if any.
\<close>

datatype error = External string | Errorf string "int list" "error option"

subsection \<open>Package config\<close>

record GitHubConfig =
  Token :: string
  Owner :: string
  Repos :: "string list"
  BaseURL :: string
  UploadURL :: string

record EmailConfig =
  SMTPHost :: string
  SMTPPort :: int
  SMTPUsername :: string
  SMTPPassword :: string
  From :: string
  To :: "string list"
  Subject :: string
  RateLimit :: Duration
  RateTimeout :: Duration

record RulesConfig =
  ApprovalTime :: Duration
  MergeReminderTime :: Duration
  MergeTime :: Duration
  DraftTime :: Duration
  CheckInterval :: Duration
  EscalationEmail :: string

record DebugConfig =
  Enabled :: bool
  Verbose :: bool
  SkipEmails :: bool
  Concurrency :: int

record Config =
  GitHub :: GitHubConfig
  Email :: EmailConfig
  Rules :: RulesConfig
  Debug :: DebugConfig

text \<open>\<^verbatim>\<open>setDefaults\<close>: nine independent "if the field is zero, set it" statements.\<close>

definition setDefaults :: "Config \<Rightarrow> Config" where
  "setDefaults config =
     (let r = Rules config;
          r = (if ApprovalTime r = 0 then r\<lparr>ApprovalTime := 2 * Hour\<rparr> else r);
          r = (if MergeReminderTime r = 0 then r\<lparr>MergeReminderTime := 4 * Hour\<rparr> else r);
          r = (if MergeTime r = 0 then r\<lparr>MergeTime := 6 * Hour\<rparr> else r);
          r = (if DraftTime r = 0 then r\<lparr>DraftTime := 96 * Hour\<rparr> else r);
          r = (if CheckInterval r = 0 then r\<lparr>CheckInterval := 1 * Hour\<rparr> else r);
          m = Email config;
          m = (if Subject m = [] then m\<lparr>Subject := ''PR Age Alert''\<rparr> else m);
          m = (if RateLimit m = 0 then m\<lparr>RateLimit := 500 * Millisecond\<rparr> else m);
          m = (if RateTimeout m = 0 then m\<lparr>RateTimeout := 30 * Second\<rparr> else m);
          d = Debug config;
          d = (if Concurrency d = 0 then d\<lparr>Concurrency := 5\<rparr> else d)
      in config\<lparr>Rules := r, Email := m, Debug := d\<rparr>)"

text \<open>
  \<^verbatim>\<open>parseDuration\<close>; the library's \<^verbatim>\<open>time.ParseDuration\<close> is the argument \<open>parse\<close>.
\<close>

definition parseDuration :: "(string \<Rightarrow> error + Duration) \<Rightarrow> string \<Rightarrow> Duration \<Rightarrow> Duration" where
  "parseDuration parse s fallback =
     (if s = [] then fallback
      else case parse s of Inl err \<Rightarrow> fallback | Inr d \<Rightarrow> d)"

text \<open>
  What \<^verbatim>\<open>Load\<close> finds at the file name: \<^verbatim>\<open>os.Stat\<close> fails (\<open>NoFile\<close>),
  \<^verbatim>\<open>os.ReadFile\<close> fails, \<^verbatim>\<open>yaml.Unmarshal\<close> fails, or it fills a zero
  \<^verbatim>\<open>Config\<close> with the keys of the file.
\<close>

datatype ConfigFile = NoFile | ReadFailed error | ParseFailed error | Parsed Config

text \<open>
  \<^verbatim>\<open>Load\<close>. With a file, the parsed configuration goes through \<^verbatim>\<open>setDefaults\<close>.
  Without one, the configuration is built from the environment \<open>getenv\<close>, with a
  fallback for each of the three durations it reads, and then goes through
  \<^verbatim>\<open>setDefaults\<close> as well. Fields the struct literal does not name are zero.
\<close>

definition Load ::
  "(string \<Rightarrow> error + Duration) \<Rightarrow> (string \<Rightarrow> string) \<Rightarrow> ConfigFile \<Rightarrow> error + Config" where
  "Load parse getenv file =
     (case file of
        ReadFailed err \<Rightarrow> Inl (Errorf ''failed to read config file: %w'' [] (Some err))
      | ParseFailed err \<Rightarrow> Inl (Errorf ''failed to parse config file: %w'' [] (Some err))
      | Parsed config \<Rightarrow> Inr (setDefaults config)
      | NoFile \<Rightarrow>
          (let config =
             \<lparr>GitHub = \<lparr>Token = getenv ''GITHUB_TOKEN'', Owner = getenv ''GITHUB_OWNER'',
                        Repos = [], BaseURL = [], UploadURL = []\<rparr>,
              Email = \<lparr>SMTPHost = getenv ''SMTP_HOST'', SMTPPort = 0,
                       SMTPUsername = getenv ''SMTP_USERNAME'',
                       SMTPPassword = getenv ''SMTP_PASSWORD'', From = getenv ''EMAIL_FROM'',
                       To = [], Subject = [], RateLimit = 0, RateTimeout = 0\<rparr>,
              Rules = \<lparr>ApprovalTime = parseDuration parse (getenv ''APPROVAL_TIME'') (2 * Hour),
                       MergeReminderTime = 0,
                       MergeTime = parseDuration parse (getenv ''MERGE_TIME'') (4 * Hour),
                       DraftTime = 0,
                       CheckInterval =
                         parseDuration parse (getenv ''CHECK_INTERVAL'') (30 * Minute),
                       EscalationEmail = []\<rparr>,
              Debug = \<lparr>Enabled = (getenv ''DEBUG'' = ''true''),
                       Verbose = (getenv ''VERBOSE'' = ''true''),
                       SkipEmails = (getenv ''SKIP_EMAILS'' = ''true''), Concurrency = 5\<rparr>\<rparr>;
               config = (if getenv ''GITHUB_REPOS'' \<noteq> []
                         then config\<lparr>GitHub := (GitHub config)\<lparr>Repos := [getenv ''GITHUB_REPOS'']\<rparr>\<rparr>
                         else config);
               config = (if getenv ''EMAIL_TO'' \<noteq> []
                         then config\<lparr>Email := (Email config)\<lparr>To := [getenv ''EMAIL_TO'']\<rparr>\<rparr>
                         else config)
           in Inr (setDefaults config)))"

subsection \<open>Package github\<close>

record User =
  Login :: string
  UserEmail :: string
  Name :: string

record Branch =
  Ref :: string
  SHA :: string

text \<open>
  A pull request snapshot. The three pointer fields are never nil in a snapshot the
  fetch layer builds, so they are plain records. The field \<^verbatim>\<open>Email\<close> of a user is
  \<open>UserEmail\<close> here, since \<open>Email\<close> is the field of \<open>Config\<close>.
\<close>

record PullRequest =
  Number :: int
  Title :: string
  State :: string
  Draft :: bool
  CreatedAt :: Time
  UpdatedAt :: Time
  User :: User
  Head :: Branch
  Base :: Branch
  URL :: string
  Approved :: bool
  ReviewCount :: int
  Repo :: string
  Additions :: int
  Deletions :: int
  TotalChanges :: int
  ChangedFiles :: int
  SizeCategory :: string

text \<open>A review as the GitHub client returns it; only its state is read.\<close>

record Review =
  GetState :: string

text \<open>
  \<^verbatim>\<open>checkPRApprovals\<close>: the loop over the reviews, then the function. The outcome of
  \<^verbatim>\<open>ListReviews\<close> is the argument.
\<close>

fun reviewLoop :: "Review list \<Rightarrow> bool \<times> int \<Rightarrow> bool \<times> int" where
  "reviewLoop [] (approved, reviewCount) = (approved, reviewCount)"
| "reviewLoop (review # reviews) (approved, reviewCount) =
     reviewLoop reviews
       (if GetState review = ''APPROVED'' then True else approved,
        if GetState review \<noteq> ''COMMENTED'' then reviewCount + 1 else reviewCount)"

definition checkPRApprovals :: "error + Review list \<Rightarrow> bool \<times> int \<times> error option" where
  "checkPRApprovals listed =
     (case listed of
        Inl err \<Rightarrow> (False, 0, Some err)
      | Inr reviews \<Rightarrow>
          (case reviewLoop reviews (False, 0) of
             (approved, reviewCount) \<Rightarrow> (approved, reviewCount, None)))"

subsection \<open>Package notifier\<close>

text \<open>
  The notifier. The mutex \<^verbatim>\<open>mu\<close> is not a field here: each locked section of the
  source is one atomic step of the model.
\<close>

record EmailNotifier =
  config :: EmailConfig
  skipEmails :: bool
  rateLimit :: Duration
  closed :: bool
  lastSent :: Time

datatype NotificationType = ApprovalReminder | MergeReminder | Escalation | DraftOverdue

record NotificationData =
  Type :: NotificationType
  PullRequest :: PullRequest
  Age :: Duration
  Threshold :: Duration
  Recipients :: "string list"

text \<open>
  A message handed to the SMTP dialer. Subject and body are computed from the
  notification data; the data itself stands for them, next to the rendered body.
\<close>

record Message =
  msg_From :: string
  msg_To :: "string list"
  msg_Data :: NotificationData
  msg_Body :: string

text \<open>
  What one call of \<^verbatim>\<open>processPR\<close> reads from outside the program: the clock read by
  \<^verbatim>\<open>time.Since(pr.CreatedAt)\<close>, the clock read by \<^verbatim>\<open>time.Now()\<close> for
  \<^verbatim>\<open>lastSent\<close>, the outcome of rendering the body (\<^verbatim>\<open>generateEmailBody\<close>), and
  the outcome of the i-th \<^verbatim>\<open>DialAndSend\<close>.
\<close>

record Env =
  age_clock :: Time
  sent_clock :: Time
  body :: "error + string"
  dial :: "nat \<Rightarrow> error option"

text \<open>
  \<^verbatim>\<open>NewEmailNotifier\<close>; \<open>now\<close> is the clock it reads, and \<^verbatim>\<open>lastSent\<close> starts at
  \<^verbatim>\<open>time.Now().Add(-cfg.RateLimit)\<close>.
\<close>

definition NewEmailNotifier :: "Time \<Rightarrow> EmailConfig \<Rightarrow> bool \<Rightarrow> error + EmailNotifier" where
  "NewEmailNotifier now cfg skip =
     (if \<not> skip \<and> (SMTPHost cfg = [] \<or> SMTPPort cfg = 0)
      then Inl (Errorf ''SMTP configuration is required'' [] None)
      else Inr \<lparr>config = cfg, skipEmails = skip, rateLimit = RateLimit cfg,
                closed = False, lastSent = now + negDuration (RateLimit cfg)\<rparr>)"

definition getNotificationTypeName :: "NotificationType \<Rightarrow> string" where
  "getNotificationTypeName nt =
     (case nt of
        ApprovalReminder \<Rightarrow> ''approval reminder''
      | MergeReminder \<Rightarrow> ''merge reminder''
      | Escalation \<Rightarrow> ''escalation''
      | DraftOverdue \<Rightarrow> ''draft overdue'')"

text \<open>
  The retry loop of \<^verbatim>\<open>sendNotification\<close>: attempt \<open>i\<close> of \<open>maxRetries\<close>. The result
  is the error returned and whether the message was delivered; the sleeps between the
  attempts are left out.
\<close>

function dialLoop :: "(nat \<Rightarrow> error option) \<Rightarrow> nat \<Rightarrow> nat \<Rightarrow> error option \<times> bool" where
  "dialLoop d maxRetries i =
     (if i < maxRetries then
        (case d i of
           Some err \<Rightarrow>
             if i = maxRetries - 1
             then (Some (Errorf ''failed to send email after %d retries: %w''
                           [int maxRetries] (Some err)), False)
             else dialLoop d maxRetries (i + 1)
         | None \<Rightarrow> (None, True))
      else (None, False))"
  by pat_completeness auto
termination
  by (relation "measure (\<lambda>(d, maxRetries, i). maxRetries - i)") auto

text \<open>
  \<^verbatim>\<open>sendNotification\<close> returns the error, the notifier after the call and the
  messages it delivered. The rate limiter sleeps until \<^verbatim>\<open>rateLimit\<close> has passed since
  \<^verbatim>\<open>lastSent\<close> and then stores the time in \<^verbatim>\<open>lastSent\<close>; the sleep only delays the
  call and is not part of the model, the store is.
\<close>

definition sendNotification ::
  "Env \<Rightarrow> EmailNotifier \<Rightarrow> NotificationData \<Rightarrow> error option \<times> EmailNotifier \<times> Message list" where
  "sendNotification env e data =
     (if closed e then (Some (Errorf ''email notifier is closed'' [] None), e, [])
      else if skipEmails e then (None, e, [])
      else
        (let e' = e\<lparr>lastSent := sent_clock env\<rparr> in
         case body env of
           Inl err \<Rightarrow> (Some (Errorf ''failed to generate email body: %w'' [] (Some err)), e', [])
         | Inr b \<Rightarrow>
             (let m = \<lparr>msg_From = From (config e), msg_To = Recipients data,
                       msg_Data = data, msg_Body = b\<rparr>
              in case dialLoop (dial env) 3 0 of
                   (err, delivered) \<Rightarrow> (err, e', if delivered then [m] else []))))"

definition SendApprovalReminder ::
  "Env \<Rightarrow> EmailNotifier \<Rightarrow> PullRequest \<Rightarrow> Duration \<Rightarrow> Duration
     \<Rightarrow> error option \<times> EmailNotifier \<times> Message list" where
  "SendApprovalReminder env e pr age threshold =
     sendNotification env e
       \<lparr>Type = ApprovalReminder, PullRequest = pr, Age = age, Threshold = threshold,
        Recipients = To (config e)\<rparr>"

definition SendMergeReminder ::
  "Env \<Rightarrow> EmailNotifier \<Rightarrow> PullRequest \<Rightarrow> Duration \<Rightarrow> Duration
     \<Rightarrow> error option \<times> EmailNotifier \<times> Message list" where
  "SendMergeReminder env e pr age threshold =
     sendNotification env e
       \<lparr>Type = MergeReminder, PullRequest = pr, Age = age, Threshold = threshold,
        Recipients = To (config e)\<rparr>"

definition SendEscalation ::
  "Env \<Rightarrow> EmailNotifier \<Rightarrow> PullRequest \<Rightarrow> Duration \<Rightarrow> Duration \<Rightarrow> string
     \<Rightarrow> error option \<times> EmailNotifier \<times> Message list" where
  "SendEscalation env e pr age threshold escalationEmail =
     (let recipients = To (config e);
          recipients = (if escalationEmail \<noteq> [] then recipients @ [escalationEmail]
                        else recipients)
      in sendNotification env e
           \<lparr>Type = Escalation, PullRequest = pr, Age = age, Threshold = threshold,
            Recipients = recipients\<rparr>)"

definition SendDraftOverdue ::
  "Env \<Rightarrow> EmailNotifier \<Rightarrow> PullRequest \<Rightarrow> Duration \<Rightarrow> Duration
     \<Rightarrow> error option \<times> EmailNotifier \<times> Message list" where
  "SendDraftOverdue env e pr age threshold =
     sendNotification env e
       \<lparr>Type = DraftOverdue, PullRequest = pr, Age = age, Threshold = threshold,
        Recipients = To (config e)\<rparr>"

definition Close :: "EmailNotifier \<Rightarrow> EmailNotifier" where
  "Close e = (if closed e then e else e\<lparr>closed := True\<rparr>)"

subsection \<open>Package watcher\<close>

text \<open>
  The run result. Its field \<^verbatim>\<open>DraftOverdue\<close> is \<open>DraftOverdueSent\<close> here, since
  \<open>DraftOverdue\<close> is the notification type.
\<close>

record NotificationResult =
  ApprovalReminders :: int
  MergeReminders :: int
  Escalations :: int
  DraftOverdueSent :: int
  Errors :: "error list"

definition emptyResult :: NotificationResult where
  "emptyResult = \<lparr>ApprovalReminders = 0, MergeReminders = 0, Escalations = 0,
                   DraftOverdueSent = 0, Errors = []\<rparr>"

text \<open>
  \<^verbatim>\<open>processPR\<close>, branch by branch as in the source. It returns the result, the
  notifier after the call and the messages delivered.
\<close>

definition processPR ::
  "Config \<Rightarrow> Env \<Rightarrow> EmailNotifier \<Rightarrow> PullRequest
     \<Rightarrow> NotificationResult \<times> EmailNotifier \<times> Message list" where
  "processPR cfg env e pr =
     (let result = emptyResult;
          age = time_Since (age_clock env) (CreatedAt pr)
      in
      if Draft pr then
        (if age \<ge> DraftTime (Rules cfg) then
           (case SendDraftOverdue env e pr age (DraftTime (Rules cfg)) of
              (Some err, e', out) \<Rightarrow>
                (result\<lparr>Errors := Errors result @
                    [Errorf ''draft overdue for PR #%d: %w'' [Number pr] (Some err)]\<rparr>, e', out)
            | (None, e', out) \<Rightarrow>
                (result\<lparr>DraftOverdueSent := DraftOverdueSent result + 1\<rparr>, e', out))
         else (result, e, []))
      else if age \<ge> MergeTime (Rules cfg) then
        (case SendEscalation env e pr age (MergeTime (Rules cfg)) (EscalationEmail (Rules cfg)) of
           (Some err, e', out) \<Rightarrow>
             (result\<lparr>Errors := Errors result @
                 [Errorf ''escalation for PR #%d: %w'' [Number pr] (Some err)]\<rparr>, e', out)
         | (None, e', out) \<Rightarrow>
             (result\<lparr>Escalations := Escalations result + 1\<rparr>, e', out))
      else if ReviewCount pr < 2 \<and> age \<ge> ApprovalTime (Rules cfg) then
        (case SendApprovalReminder env e pr age (ApprovalTime (Rules cfg)) of
           (Some err, e', out) \<Rightarrow>
             (result\<lparr>Errors := Errors result @
                 [Errorf ''approval reminder for PR #%d: %w'' [Number pr] (Some err)]\<rparr>, e', out)
         | (None, e', out) \<Rightarrow>
             (result\<lparr>ApprovalReminders := ApprovalReminders result + 1\<rparr>, e', out))
      else if ReviewCount pr \<ge> 2 \<and> age \<ge> MergeReminderTime (Rules cfg) then
        (case SendMergeReminder env e pr age (MergeReminderTime (Rules cfg)) of
           (Some err, e', out) \<Rightarrow>
             (result\<lparr>Errors := Errors result @
                 [Errorf ''merge reminder for PR #%d: %w'' [Number pr] (Some err)]\<rparr>, e', out)
         | (None, e', out) \<Rightarrow>
             (result\<lparr>MergeReminders := MergeReminders result + 1\<rparr>, e', out))
      else (result, e, []))"

declare dialLoop.simps [simp del]

section \<open>The rules as the specification words them\<close>

text \<open>
  The priority list of the specification's rule evaluator, written as the specification
  words it, to compare \<open>processPR\<close> with: five rules in order, each with its full
  condition. The first rule whose condition holds gives the action; when none holds there
  is no action. \<open>None\<close> is the action "None" of the specification.
\<close>

definition spec_rules :: "RulesConfig \<Rightarrow> PullRequest \<Rightarrow> Duration \<Rightarrow> (bool \<times> NotificationType option) list" where
  "spec_rules r pr age =
     [(Draft pr \<and> age \<ge> DraftTime r, Some DraftOverdue),
      (Draft pr \<and> age < DraftTime r, None),
      (\<not> Draft pr \<and> age \<ge> MergeTime r, Some Escalation),
      (\<not> Draft pr \<and> age < MergeTime r \<and> ReviewCount pr < 2 \<and> age \<ge> ApprovalTime r,
         Some ApprovalReminder),
      (\<not> Draft pr \<and> age < MergeTime r \<and> ReviewCount pr \<ge> 2 \<and> age \<ge> MergeReminderTime r,
         Some MergeReminder)]"

fun first_match :: "(bool \<times> 'a option) list \<Rightarrow> 'a option" where
  "first_match [] = None"
| "first_match ((c, a) # rs) = (if c then a else first_match rs)"

definition spec_classify :: "RulesConfig \<Rightarrow> PullRequest \<Rightarrow> Duration \<Rightarrow> NotificationType option" where
  "spec_classify r pr age = first_match (spec_rules r pr age)"

text \<open>
  The dispatch operation of each action, with the threshold that triggered it, and the way
  the specification has a dispatch recorded: a success counts once for its action, a failure
  adds one error tagged with the action and the pull request, and counts for nothing.
  \<open>spec_perform\<close> puts the two together for an action or none.
\<close>

definition spec_dispatch ::
  "Config \<Rightarrow> Env \<Rightarrow> EmailNotifier \<Rightarrow> PullRequest \<Rightarrow> Duration \<Rightarrow> NotificationType
     \<Rightarrow> error option \<times> EmailNotifier \<times> Message list" where
  "spec_dispatch cfg env e pr age k =
     (case k of
        ApprovalReminder \<Rightarrow> SendApprovalReminder env e pr age (ApprovalTime (Rules cfg))
      | MergeReminder \<Rightarrow> SendMergeReminder env e pr age (MergeReminderTime (Rules cfg))
      | Escalation \<Rightarrow>
          SendEscalation env e pr age (MergeTime (Rules cfg)) (EscalationEmail (Rules cfg))
      | DraftOverdue \<Rightarrow> SendDraftOverdue env e pr age (DraftTime (Rules cfg)))"

definition countOne :: "NotificationType \<Rightarrow> NotificationResult" where
  "countOne k =
     (case k of
        ApprovalReminder \<Rightarrow> emptyResult\<lparr>ApprovalReminders := 1\<rparr>
      | MergeReminder \<Rightarrow> emptyResult\<lparr>MergeReminders := 1\<rparr>
      | Escalation \<Rightarrow> emptyResult\<lparr>Escalations := 1\<rparr>
      | DraftOverdue \<Rightarrow> emptyResult\<lparr>DraftOverdueSent := 1\<rparr>)"

definition spec_outcome :: "PullRequest \<Rightarrow> NotificationType \<Rightarrow> error option \<Rightarrow> NotificationResult" where
  "spec_outcome pr k err =
     (case err of
        None \<Rightarrow> countOne k
      | Some er \<Rightarrow>
          emptyResult\<lparr>Errors :=
            [Errorf (getNotificationTypeName k @ '' for PR #%d: %w'') [Number pr] (Some er)]\<rparr>)"

definition spec_perform ::
  "Config \<Rightarrow> Env \<Rightarrow> EmailNotifier \<Rightarrow> PullRequest \<Rightarrow> Duration \<Rightarrow> NotificationType option
     \<Rightarrow> NotificationResult \<times> EmailNotifier \<times> Message list" where
  "spec_perform cfg env e pr age a =
     (case a of
        None \<Rightarrow> (emptyResult, e, [])
      | Some k \<Rightarrow>
          (case spec_dispatch cfg env e pr age k of
             (err, e', out) \<Rightarrow> (spec_outcome pr k err, e', out)))"

section \<open>The concurrent batch processor\<close>

text \<open>
  \<^verbatim>\<open>processPRsConcurrently\<close> starts \<^verbatim>\<open>concurrency\<close> workers, a feeder and a goroutine
  that closes the result channel once all workers are done, and aggregates the results in
  the calling goroutine. The model is an interleaving semantics: a state holding every
  goroutine and both channels, and one event for each atomic step of a goroutine. A schedule
  is a list of events; \<open>exec\<close> runs it, and is \<open>None\<close> when an event is not enabled in
  the state it meets. The statements quantify over all schedules.

  A worker is waiting to receive from \<^verbatim>\<open>prChan\<close> (\<open>Idle\<close>), holds a pull request it
  has received and has not yet checked the context for (\<open>Holding\<close>), is inside
  \<^verbatim>\<open>processPR\<close> (\<open>InFlight\<close>), or has returned (\<open>Exited\<close>).
\<close>

datatype Worker = Idle | Holding PullRequest | InFlight PullRequest | Exited

text \<open>
  A completed call of \<^verbatim>\<open>processPR\<close>: its snapshot, what it read from outside, the
  notifier it met, whether the context was done when it completed, and its result. The
  calls are a history for the statements; no step reads them.
\<close>

record Call =
  call_pr :: PullRequest
  call_env :: Env
  call_notifier :: EmailNotifier
  call_cancelled :: bool
  call_result :: NotificationResult

text \<open>
  The state: the snapshots the feeder has still to send, the two buffered channels (both
  made with capacity \<^verbatim>\<open>len(prs)\<close>) with their closed flags, the workers, the
  aggregator's \<^verbatim>\<open>totalResult\<close> and whether it has returned, whether \<^verbatim>\<open>w.ctx\<close> is
  done, the notifier all workers share, and the messages delivered so far.
\<close>

record Pipeline =
  feed :: "PullRequest list"
  prChan :: "PullRequest list"
  prChanClosed :: bool
  chanCap :: nat
  workers :: "Worker list"
  resultChan :: "NotificationResult list"
  resultChanClosed :: bool
  totalResult :: NotificationResult
  returned :: bool
  cancelled :: bool
  notifier :: EmailNotifier
  delivered :: "Message list"
  calls :: "Call list"

text \<open>
  The events, with the statement of the source each one is:
  \<^item> \<open>FeederSend\<close>: the feeder's \<^verbatim>\<open>case prChan <- pr\<close>;
  \<^item> \<open>FeederCancelled\<close>: the feeder's \<^verbatim>\<open>case <-w.ctx.Done(): return\<close>, which closes
    \<^verbatim>\<open>prChan\<close> by the deferred call (when both cases are ready Go takes either);
  \<^item> \<open>FeederDone\<close>: the feeder's loop ends and the deferred \<^verbatim>\<open>close(prChan)\<close> runs;
  \<^item> \<open>WorkerReceive i\<close>: worker \<open>i\<close> receives in \<^verbatim>\<open>for pr := range prChan\<close>;
  \<^item> \<open>WorkerChanClosed i\<close>: that loop ends, \<^verbatim>\<open>prChan\<close> being closed and empty;
  \<^item> \<open>WorkerCancelled i\<close>: the worker's \<^verbatim>\<open>case <-w.ctx.Done(): return\<close>;
  \<^item> \<open>WorkerStart i\<close>: the worker's \<^verbatim>\<open>default:\<close>, entering \<^verbatim>\<open>w.processPR(pr)\<close>;
  \<^item> \<open>WorkerFinish i env\<close>: \<^verbatim>\<open>processPR\<close> runs in the world \<open>env\<close>, returns, and
    \<^verbatim>\<open>resultChan <- \<close> sends its result;
  \<^item> \<open>WaitDone\<close>: \<^verbatim>\<open>wg.Wait()\<close> returns and \<^verbatim>\<open>close(resultChan)\<close> runs;
  \<^item> \<open>AggregatorReceive\<close>: one round of \<^verbatim>\<open>for result := range resultChan\<close>;
  \<^item> \<open>AggregatorReturn\<close>: that loop ends and \<^verbatim>\<open>totalResult\<close> is returned;
  \<^item> \<open>WatcherCancel\<close> and \<open>WatcherCloseNotifier\<close>: the two statements of
    \<^verbatim>\<open>PRWatcher.Close\<close>, \<^verbatim>\<open>w.cancel()\<close> and then \<^verbatim>\<open>w.notifier.Close()\<close>, called
    from another goroutine while the run is going on.

  \<^verbatim>\<open>processPR\<close> is one step, taken when it completes: its locked sections are atomic,
  and what it returns depends on the notifier only through \<^verbatim>\<open>closed\<close>, read once.
\<close>

datatype Event =
    FeederSend
  | FeederCancelled
  | FeederDone
  | WorkerReceive nat
  | WorkerChanClosed nat
  | WorkerCancelled nat
  | WorkerStart nat
  | WorkerFinish nat Env
  | WaitDone
  | AggregatorReceive
  | AggregatorReturn
  | WatcherCancel
  | WatcherCloseNotifier

text \<open>The body of the aggregator's loop.\<close>

definition addResult :: "NotificationResult \<Rightarrow> NotificationResult \<Rightarrow> NotificationResult" where
  "addResult acc result =
     acc
       \<lparr>ApprovalReminders := ApprovalReminders acc + ApprovalReminders result,
        MergeReminders := MergeReminders acc + MergeReminders result,
        Escalations := Escalations acc + Escalations result,
        DraftOverdueSent := DraftOverdueSent acc + DraftOverdueSent result,
        Errors := Errors acc @ Errors result\<rparr>"

text \<open>
  The state when all goroutines have been started. \<open>ctxDone\<close> says whether the context
  was cancelled before the run; a \<^verbatim>\<open>concurrency\<close> of 0 or less starts no worker.
\<close>

definition initial :: "EmailNotifier \<Rightarrow> bool \<Rightarrow> PullRequest list \<Rightarrow> int \<Rightarrow> Pipeline" where
  "initial e ctxDone prs concurrency =
     \<lparr>feed = prs, prChan = [], prChanClosed = False, chanCap = length prs,
      workers = replicate (nat concurrency) Idle,
      resultChan = [], resultChanClosed = False, totalResult = emptyResult,
      returned = False, cancelled = ctxDone, notifier = e, delivered = [], calls = []\<rparr>"

fun step :: "Config \<Rightarrow> Event \<Rightarrow> Pipeline \<Rightarrow> Pipeline option" where
  "step cfg FeederSend s =
     (case feed s of
        pr # rest \<Rightarrow>
          if \<not> prChanClosed s \<and> length (prChan s) < chanCap s
          then Some (s\<lparr>feed := rest, prChan := prChan s @ [pr]\<rparr>)
          else None
      | [] \<Rightarrow> None)"
| "step cfg FeederCancelled s =
     (if feed s \<noteq> [] \<and> \<not> prChanClosed s \<and> cancelled s
      then Some (s\<lparr>prChanClosed := True\<rparr>) else None)"
| "step cfg FeederDone s =
     (if feed s = [] \<and> \<not> prChanClosed s
      then Some (s\<lparr>prChanClosed := True\<rparr>) else None)"
| "step cfg (WorkerReceive i) s =
     (if i < length (workers s) \<and> workers s ! i = Idle then
        (case prChan s of
           pr # queue \<Rightarrow> Some (s\<lparr>prChan := queue, workers := (workers s)[i := Holding pr]\<rparr>)
         | [] \<Rightarrow> None)
      else None)"
| "step cfg (WorkerChanClosed i) s =
     (if i < length (workers s) \<and> workers s ! i = Idle \<and> prChan s = [] \<and> prChanClosed s
      then Some (s\<lparr>workers := (workers s)[i := Exited]\<rparr>) else None)"
| "step cfg (WorkerCancelled i) s =
     (if i < length (workers s) then
        (case workers s ! i of
           Holding pr \<Rightarrow>
             if cancelled s then Some (s\<lparr>workers := (workers s)[i := Exited]\<rparr>) else None
         | _ \<Rightarrow> None)
      else None)"
| "step cfg (WorkerStart i) s =
     (if i < length (workers s) then
        (case workers s ! i of
           Holding pr \<Rightarrow>
             if \<not> cancelled s then Some (s\<lparr>workers := (workers s)[i := InFlight pr]\<rparr>) else None
         | _ \<Rightarrow> None)
      else None)"
| "step cfg (WorkerFinish i env) s =
     (if i < length (workers s) then
        (case workers s ! i of
           InFlight pr \<Rightarrow>
             if length (resultChan s) < chanCap s then
               (case processPR cfg env (notifier s) pr of
                  (result, e', out) \<Rightarrow>
                    Some (s\<lparr>workers := (workers s)[i := Idle],
                            resultChan := resultChan s @ [result],
                            notifier := e',
                            delivered := delivered s @ out,
                            calls := calls s @
                              [\<lparr>call_pr = pr, call_env = env, call_notifier = notifier s,
                                call_cancelled = cancelled s, call_result = result\<rparr>]\<rparr>))
             else None
         | _ \<Rightarrow> None)
      else None)"
| "step cfg WaitDone s =
     (if list_all (\<lambda>w. w = Exited) (workers s) \<and> \<not> resultChanClosed s
      then Some (s\<lparr>resultChanClosed := True\<rparr>) else None)"
| "step cfg AggregatorReceive s =
     (case resultChan s of
        result # queue \<Rightarrow>
          if \<not> returned s
          then Some (s\<lparr>resultChan := queue, totalResult := addResult (totalResult s) result\<rparr>)
          else None
      | [] \<Rightarrow> None)"
| "step cfg AggregatorReturn s =
     (if resultChan s = [] \<and> resultChanClosed s \<and> \<not> returned s
      then Some (s\<lparr>returned := True\<rparr>) else None)"
| "step cfg WatcherCancel s =
     (if \<not> cancelled s then Some (s\<lparr>cancelled := True\<rparr>) else None)"
| "step cfg WatcherCloseNotifier s =
     (if cancelled s \<and> \<not> closed (notifier s) then Some (s\<lparr>notifier := Close (notifier s)\<rparr>)
      else None)"

text \<open>
  Running a schedule. \<open>processPRsConcurrently\<close> has returned under a schedule when the
  aggregator has; its Go result is \<open>totalResult\<close> of the state returned here.
\<close>

fun exec :: "Config \<Rightarrow> Event list \<Rightarrow> Pipeline \<Rightarrow> Pipeline option" where
  "exec cfg [] s = Some s"
| "exec cfg (ev # evs) s = (case step cfg ev s of None \<Rightarrow> None | Some s' \<Rightarrow> exec cfg evs s')"

definition processPRsConcurrently ::
  "Config \<Rightarrow> EmailNotifier \<Rightarrow> bool \<Rightarrow> PullRequest list \<Rightarrow> int \<Rightarrow> Event list \<Rightarrow> Pipeline option" where
  "processPRsConcurrently cfg e ctxDone prs concurrency evs =
     (case exec cfg evs (initial e ctxDone prs concurrency) of
        None \<Rightarrow> None
      | Some s \<Rightarrow> if returned s then Some s else None)"

text \<open>
  \<^verbatim>\<open>CheckPRs\<close>. The outcome of \<^verbatim>\<open>GetPullRequests\<close> is the argument \<open>fetched\<close>.
  The result is \<open>None\<close> while the run has not returned under the schedule, and else the
  error returned together with the final state of the batch, if there was one; the log
  lines are left out.
\<close>

definition CheckPRs ::
  "Config \<Rightarrow> error + PullRequest list \<Rightarrow> EmailNotifier \<Rightarrow> bool \<Rightarrow> Event list
     \<Rightarrow> (error option \<times> Pipeline option) option" where
  "CheckPRs cfg fetched e ctxDone evs =
     (case fetched of
        Inl err \<Rightarrow> Some (Some (Errorf ''failed to fetch pull requests: %w'' [] (Some err)), None)
      | Inr prs \<Rightarrow>
          (let concurrency = Concurrency (Debug cfg);
               concurrency = (if concurrency \<le> 0 then 5 else concurrency)
           in case processPRsConcurrently cfg e ctxDone prs concurrency evs of
                None \<Rightarrow> None
              | Some results \<Rightarrow> Some (None, Some results)))"

section \<open>Vocabulary of the statements\<close>

text \<open>The pull requests workers hold unchecked, and those in flight inside \<^verbatim>\<open>processPR\<close>.\<close>

fun holding :: "Worker \<Rightarrow> PullRequest list" where
  "holding (Holding pr) = [pr]"
| "holding _ = []"

fun inflight :: "Worker \<Rightarrow> PullRequest list" where
  "inflight (InFlight pr) = [pr]"
| "inflight _ = []"

definition held :: "Pipeline \<Rightarrow> PullRequest list" where
  "held s = concat (map holding (workers s))"

definition flying :: "Pipeline \<Rightarrow> PullRequest list" where
  "flying s = concat (map inflight (workers s))"

text \<open>
  \<open>budget\<close> bounds the number of steps a state has left: every step lowers it.
  \<open>load\<close> counts the pull requests and results on their way; it never exceeds the
  capacity of the channels, so no send blocks for ever.
\<close>

fun weight :: "Worker \<Rightarrow> nat" where
  "weight Idle = 1"
| "weight (Holding pr) = 4"
| "weight (InFlight pr) = 3"
| "weight Exited = 0"

definition budget :: "Pipeline \<Rightarrow> nat" where
  "budget s =
     (if prChanClosed s then 0 else 1 + 5 * length (feed s)) + 4 * length (prChan s)
     + sum_list (map weight (workers s)) + length (resultChan s)
     + (if resultChanClosed s then 0 else 1) + (if returned s then 0 else 1)
     + (if cancelled s then 0 else 1) + (if closed (notifier s) then 0 else 1)"

definition load :: "Pipeline \<Rightarrow> nat" where
  "load s = length (feed s) + length (prChan s) + length (held s) + length (flying s)
     + length (resultChan s)"

text \<open>
  Four invariants of the run. \<open>results_ok\<close>: the aggregate and the results still in the
  channel make up the results of the completed calls. \<open>calls_ok\<close>: each recorded call
  has the result \<open>processPR\<close> gives it. \<open>ledger\<close>: where the input snapshots are; it
  only ever loses a snapshot, and none while the context is not done. \<open>shape_ok\<close>: the
  order in which channels close and goroutines return.
\<close>

definition results_ok :: "Pipeline \<Rightarrow> bool" where
  "results_ok s \<longleftrightarrow>
     foldl addResult (totalResult s) (resultChan s) =
       foldl addResult emptyResult (map call_result (calls s))"

definition calls_ok :: "Config \<Rightarrow> Pipeline \<Rightarrow> bool" where
  "calls_ok cfg s \<longleftrightarrow>
     (\<forall>c \<in> set (calls s).
        call_result c = fst (processPR cfg (call_env c) (call_notifier c) (call_pr c)))"

definition ledger :: "Pipeline \<Rightarrow> PullRequest multiset" where
  "ledger s = mset (feed s) + mset (prChan s) + mset (held s) + mset (flying s)
     + mset (map call_pr (calls s))"

definition shape_ok :: "Pipeline \<Rightarrow> bool" where
  "shape_ok s \<longleftrightarrow>
     (resultChanClosed s \<longrightarrow> list_all (\<lambda>w. w = Exited) (workers s)) \<and>
     (returned s \<longrightarrow> resultChanClosed s \<and> resultChan s = []) \<and>
     (\<not> cancelled s \<and> Exited \<in> set (workers s) \<longrightarrow> prChanClosed s \<and> prChan s = []) \<and>
     (\<not> cancelled s \<and> prChanClosed s \<longrightarrow> feed s = [])"

text \<open>
  A completed call in the words of the specification: the age it computed, the action of
  its snapshot, the error its dispatch returned (none when there was no dispatch), the
  error entries the call is due, the calls completed while the context was not yet done,
  and whether a call counts as a sent notification of a kind.
  \<open>counter k\<close> is the field of the run result that counts the action \<open>k\<close>.
\<close>

definition call_age :: "Call \<Rightarrow> Duration" where
  "call_age c = time_Since (age_clock (call_env c)) (CreatedAt (call_pr c))"

definition call_action :: "Config \<Rightarrow> Call \<Rightarrow> NotificationType option" where
  "call_action cfg c = spec_classify (Rules cfg) (call_pr c) (call_age c)"

definition call_error :: "Config \<Rightarrow> Call \<Rightarrow> error option" where
  "call_error cfg c =
     (case call_action cfg c of
        None \<Rightarrow> None
      | Some k \<Rightarrow>
          fst (spec_dispatch cfg (call_env c) (call_notifier c) (call_pr c) (call_age c) k))"

definition call_errors :: "Config \<Rightarrow> Call \<Rightarrow> error list" where
  "call_errors cfg c =
     (case call_action cfg c of
        None \<Rightarrow> []
      | Some k \<Rightarrow>
          (case call_error cfg c of
             None \<Rightarrow> []
           | Some er \<Rightarrow>
               [Errorf (getNotificationTypeName k @ '' for PR #%d: %w'')
                  [Number (call_pr c)] (Some er)]))"

definition completedBeforeCancel :: "Pipeline \<Rightarrow> Call list" where
  "completedBeforeCancel s = filter (\<lambda>c. \<not> call_cancelled c) (calls s)"

definition sent :: "Config \<Rightarrow> NotificationType \<Rightarrow> Call \<Rightarrow> bool" where
  "sent cfg k c \<longleftrightarrow> call_action cfg c = Some k \<and> call_error cfg c = None"

definition counter :: "NotificationType \<Rightarrow> NotificationResult \<Rightarrow> int" where
  "counter k r =
     (case k of
        ApprovalReminder \<Rightarrow> ApprovalReminders r
      | MergeReminder \<Rightarrow> MergeReminders r
      | Escalation \<Rightarrow> Escalations r
      | DraftOverdue \<Rightarrow> DraftOverdueSent r)"

text \<open>
  A caller's view of the notifier: a sequence of calls of its five methods, each send in
  its own world, threaded through the notifier. \<open>notifierOps\<close> returns what each call
  returned and delivered, and the notifier at the end. \<open>afterClose\<close> is what a call
  gives on a closed notifier.
\<close>

datatype NotifierOp =
    OpApprovalReminder PullRequest Duration Duration
  | OpMergeReminder PullRequest Duration Duration
  | OpEscalation PullRequest Duration Duration string
  | OpDraftOverdue PullRequest Duration Duration
  | OpClose

fun notifierOp ::
  "Env \<Rightarrow> NotifierOp \<Rightarrow> EmailNotifier \<Rightarrow> error option \<times> EmailNotifier \<times> Message list" where
  "notifierOp env (OpApprovalReminder pr age threshold) e = SendApprovalReminder env e pr age threshold"
| "notifierOp env (OpMergeReminder pr age threshold) e = SendMergeReminder env e pr age threshold"
| "notifierOp env (OpEscalation pr age threshold to) e = SendEscalation env e pr age threshold to"
| "notifierOp env (OpDraftOverdue pr age threshold) e = SendDraftOverdue env e pr age threshold"
| "notifierOp env OpClose e = (None, Close e, [])"

fun notifierOps ::
  "(Env \<times> NotifierOp) list \<Rightarrow> EmailNotifier
     \<Rightarrow> (error option \<times> Message list) list \<times> EmailNotifier" where
  "notifierOps [] e = ([], e)"
| "notifierOps ((env, op) # ops) e =
     (case notifierOp env op e of
        (err, e', out) \<Rightarrow>
          (case notifierOps ops e' of (rs, e'') \<Rightarrow> ((err, out) # rs, e'')))"

definition afterClose :: "NotifierOp \<Rightarrow> error option \<times> Message list" where
  "afterClose op =
     (case op of
        OpClose \<Rightarrow> (None, [])
      | _ \<Rightarrow> (Some (Errorf ''email notifier is closed'' [] None), []))"

text \<open>
  Values for the examples: a configuration that leaves every threshold to
  \<open>setDefaults\<close>, and an open notifier built on it.
\<close>

definition demoConfig :: Config where
  "demoConfig = setDefaults
     \<lparr>GitHub = \<lparr>Token = ''token'', Owner = ''org'', Repos = [''repo''], BaseURL = [],
                UploadURL = []\<rparr>,
      Email = \<lparr>SMTPHost = ''smtp.example.com'', SMTPPort = 587, SMTPUsername = [],
               SMTPPassword = [], From = ''watcher@example.com'', To = [''team@example.com''],
               Subject = [], RateLimit = 0, RateTimeout = 0\<rparr>,
      Rules = \<lparr>ApprovalTime = 0, MergeReminderTime = 0, MergeTime = 0, DraftTime = 0,
               CheckInterval = 0, EscalationEmail = ''lead@example.com''\<rparr>,
      Debug = \<lparr>Enabled = False, Verbose = False, SkipEmails = False, Concurrency = 0\<rparr>\<rparr>"

definition demoNotifier :: EmailNotifier where
  "demoNotifier = \<lparr>config = Email demoConfig, skipEmails = False,
     rateLimit = RateLimit (Email demoConfig), closed = False, lastSent = 0\<rparr>"

text \<open>An environment with no variable set, and a parser that is never asked.\<close>

definition noEnv :: "string \<Rightarrow> string" where
  "noEnv name = []"

definition noParse :: "string \<Rightarrow> error + Duration" where
  "noParse s = Inl (External ''time: invalid duration'')"

text \<open>A pull request created at time 0, draft or not, with \<open>n\<close> reviews counted.\<close>

definition demoPR :: "int \<Rightarrow> bool \<Rightarrow> int \<Rightarrow> PullRequest" where
  "demoPR number draft n =
     \<lparr>Number = number, Title = ''title'', State = ''open'', Draft = draft, CreatedAt = 0,
      UpdatedAt = 0, User = \<lparr>Login = ''dev'', UserEmail = [], Name = []\<rparr>,
      Head = \<lparr>Ref = ''feature'', SHA = []\<rparr>, Base = \<lparr>Ref = ''main'', SHA = []\<rparr>,
      URL = [], Approved = False, ReviewCount = n, Repo = ''repo'', Additions = 0,
      Deletions = 0, TotalChanges = 0, ChangedFiles = 0, SizeCategory = ''XS''\<rparr>"

text \<open>The world \<open>h\<close> hours after time 0; every SMTP attempt succeeds, or every one fails.\<close>

definition demoEnv :: "int \<Rightarrow> bool \<Rightarrow> Env" where
  "demoEnv h ok =
     \<lparr>age_clock = h * Hour, sent_clock = h * Hour, body = Inr ''body'',
      dial = (\<lambda>i. if ok then None else Some (External ''connection refused''))\<rparr>"

text \<open>
  Schedules for the examples. \<open>idleRun n\<close> runs \<open>n\<close> workers on no pull request.
  \<open>demoRun\<close> runs five workers on two pull requests: worker 1 takes the first, worker 0
  the second, and worker 0 finishes first. \<open>cancelPrefix\<close> puts the first of two pull
  requests in flight on worker 0 and then cancels; \<open>cancelRest\<close> lets worker 1 take the
  second pull request, which it drops, and lets worker 0 finish.
\<close>

definition idleRun :: "nat \<Rightarrow> Event list" where
  "idleRun n = [FeederDone] @ map WorkerChanClosed [0..<n] @ [WaitDone, AggregatorReturn]"

definition demoRun :: "Env \<Rightarrow> Env \<Rightarrow> Event list" where
  "demoRun envA envB =
     [FeederSend, FeederSend, WorkerReceive 1, WorkerReceive 0, WorkerStart 0, WorkerStart 1,
      WorkerFinish 0 envB, WorkerFinish 1 envA, FeederDone]
     @ map WorkerChanClosed [0..<5]
     @ [WaitDone, AggregatorReceive, AggregatorReceive, AggregatorReturn]"

definition cancelPrefix :: "Event list" where
  "cancelPrefix = [FeederSend, FeederSend, WorkerReceive 0, WorkerStart 0, WatcherCancel]"

definition cancelRest :: "Env \<Rightarrow> Event list" where
  "cancelRest env =
     [WorkerReceive 1, WorkerFinish 0 env, WorkerCancelled 1, FeederDone, WorkerChanClosed 0,
      WaitDone, AggregatorReceive, AggregatorReturn]"

section \<open>Lemmas\<close>

lemma processPR_perform:
  "processPR cfg env e pr =
     spec_perform cfg env e pr (time_Since (age_clock env) (CreatedAt pr))
       (spec_classify (Rules cfg) pr (time_Since (age_clock env) (CreatedAt pr)))"
  by (auto simp: processPR_def spec_perform_def spec_classify_def spec_rules_def Let_def
      spec_dispatch_def spec_outcome_def countOne_def getNotificationTypeName_def emptyResult_def
      split: prod.splits option.splits)

lemma spec_perform_inj:
  "spec_perform cfg env e pr age a = spec_perform cfg env e pr age b \<Longrightarrow> a = b"
  by (auto simp: spec_perform_def spec_outcome_def countOne_def getNotificationTypeName_def emptyResult_def
      split: prod.splits option.splits NotificationType.splits)

lemma nth_split:
  assumes "i < length ws"
  shows "\<exists>pre post. ws = pre @ ws ! i # post \<and> length pre = i \<and> (\<forall>w. ws[i := w] = pre @ w # post)"
proof (intro exI conjI allI)
  show "ws = take i ws @ ws ! i # drop (Suc i) ws"
    using assms by (rule id_take_nth_drop)
  show "length (take i ws) = i"
    using assms by simp
  show "ws[i := w] = take i ws @ w # drop (Suc i) ws" for w
    using assms by (rule upd_conv_take_nth_drop)
qed

lemma step_cases [consumes 1, case_names FeederSend FeederCancelled FeederDone WorkerReceive
    WorkerChanClosed WorkerCancelled WorkerStart WorkerFinish WaitDone AggregatorReceive
    AggregatorReturn WatcherCancel WatcherCloseNotifier]:
  assumes "step cfg ev s = Some s'"
  obtains
    pr rest where "ev = FeederSend" "feed s = pr # rest" "\<not> prChanClosed s"
      "length (prChan s) < chanCap s" "s' = s\<lparr>feed := rest, prChan := prChan s @ [pr]\<rparr>"
  | "ev = FeederCancelled" "feed s \<noteq> []" "\<not> prChanClosed s" "cancelled s"
      "s' = s\<lparr>prChanClosed := True\<rparr>"
  | "ev = FeederDone" "feed s = []" "\<not> prChanClosed s" "s' = s\<lparr>prChanClosed := True\<rparr>"
  | i pr queue pre post where "ev = WorkerReceive i" "workers s = pre @ Idle # post"
      "length pre = i" "prChan s = pr # queue"
      "s' = s\<lparr>prChan := queue, workers := pre @ Holding pr # post\<rparr>"
  | i pre post where "ev = WorkerChanClosed i" "workers s = pre @ Idle # post" "length pre = i"
      "prChan s = []" "prChanClosed s" "s' = s\<lparr>workers := pre @ Exited # post\<rparr>"
  | i pr pre post where "ev = WorkerCancelled i" "workers s = pre @ Holding pr # post"
      "length pre = i" "cancelled s" "s' = s\<lparr>workers := pre @ Exited # post\<rparr>"
  | i pr pre post where "ev = WorkerStart i" "workers s = pre @ Holding pr # post"
      "length pre = i" "\<not> cancelled s" "s' = s\<lparr>workers := pre @ InFlight pr # post\<rparr>"
  | i env pr pre post where "ev = WorkerFinish i env" "workers s = pre @ InFlight pr # post"
      "length pre = i" "length (resultChan s) < chanCap s"
      "s' = s\<lparr>workers := pre @ Idle # post,
              resultChan := resultChan s @ [fst (processPR cfg env (notifier s) pr)],
              notifier := fst (snd (processPR cfg env (notifier s) pr)),
              delivered := delivered s @ snd (snd (processPR cfg env (notifier s) pr)),
              calls := calls s @
                [\<lparr>call_pr = pr, call_env = env, call_notifier = notifier s,
                  call_cancelled = cancelled s,
                  call_result = fst (processPR cfg env (notifier s) pr)\<rparr>]\<rparr>"
  | "ev = WaitDone" "list_all (\<lambda>w. w = Exited) (workers s)" "\<not> resultChanClosed s"
      "s' = s\<lparr>resultChanClosed := True\<rparr>"
  | result queue where "ev = AggregatorReceive" "resultChan s = result # queue" "\<not> returned s"
      "s' = s\<lparr>resultChan := queue, totalResult := addResult (totalResult s) result\<rparr>"
  | "ev = AggregatorReturn" "resultChan s = []" "resultChanClosed s" "\<not> returned s"
      "s' = s\<lparr>returned := True\<rparr>"
  | "ev = WatcherCancel" "\<not> cancelled s" "s' = s\<lparr>cancelled := True\<rparr>"
  | "ev = WatcherCloseNotifier" "cancelled s" "\<not> closed (notifier s)"
      "s' = s\<lparr>notifier := Close (notifier s)\<rparr>"
proof (cases ev)
  case FeederSend
  then show ?thesis using assms that(1) by (auto split: list.splits if_splits)
next
  case FeederCancelled
  then show ?thesis using assms that(2) by (auto split: if_splits)
next
  case FeederDone
  then show ?thesis using assms that(3) by (auto split: if_splits)
next
  case (WorkerReceive i)
  with assms obtain pr queue where a: "i < length (workers s)" "workers s ! i = Idle"
    "prChan s = pr # queue" "s' = s\<lparr>prChan := queue, workers := (workers s)[i := Holding pr]\<rparr>"
    by (auto split: list.splits if_splits)
  from nth_split[OF a(1)] a(2) obtain pre post where
    "workers s = pre @ Idle # post" "length pre = i" "\<forall>w. (workers s)[i := w] = pre @ w # post"
    by metis
  with a WorkerReceive show ?thesis using that(4) by simp
next
  case (WorkerChanClosed i)
  with assms have a: "i < length (workers s)" "workers s ! i = Idle" "prChan s = []"
    "prChanClosed s" "s' = s\<lparr>workers := (workers s)[i := Exited]\<rparr>"
    by (auto split: if_splits)
  from nth_split[OF a(1)] a(2) obtain pre post where
    "workers s = pre @ Idle # post" "length pre = i" "\<forall>w. (workers s)[i := w] = pre @ w # post"
    by metis
  with a WorkerChanClosed show ?thesis using that(5) by simp
next
  case (WorkerCancelled i)
  with assms obtain pr where a: "i < length (workers s)" "workers s ! i = Holding pr"
    "cancelled s" "s' = s\<lparr>workers := (workers s)[i := Exited]\<rparr>"
    by (auto split: if_splits Worker.splits)
  from nth_split[OF a(1)] a(2) obtain pre post where
    "workers s = pre @ Holding pr # post" "length pre = i"
    "\<forall>w. (workers s)[i := w] = pre @ w # post"
    by metis
  with a WorkerCancelled show ?thesis using that(6) by simp
next
  case (WorkerStart i)
  with assms obtain pr where a: "i < length (workers s)" "workers s ! i = Holding pr"
    "\<not> cancelled s" "s' = s\<lparr>workers := (workers s)[i := InFlight pr]\<rparr>"
    by (auto split: if_splits Worker.splits)
  from nth_split[OF a(1)] a(2) obtain pre post where
    "workers s = pre @ Holding pr # post" "length pre = i"
    "\<forall>w. (workers s)[i := w] = pre @ w # post"
    by metis
  with a WorkerStart show ?thesis using that(7) by simp
next
  case (WorkerFinish i env)
  with assms obtain pr where a: "i < length (workers s)" "workers s ! i = InFlight pr"
    "length (resultChan s) < chanCap s"
    "s' = s\<lparr>workers := (workers s)[i := Idle],
              resultChan := resultChan s @ [fst (processPR cfg env (notifier s) pr)],
              notifier := fst (snd (processPR cfg env (notifier s) pr)),
              delivered := delivered s @ snd (snd (processPR cfg env (notifier s) pr)),
              calls := calls s @
                [\<lparr>call_pr = pr, call_env = env, call_notifier = notifier s,
                  call_cancelled = cancelled s,
                  call_result = fst (processPR cfg env (notifier s) pr)\<rparr>]\<rparr>"
    by (auto split: if_splits Worker.splits prod.splits)
  from nth_split[OF a(1)] a(2) obtain pre post where
    "workers s = pre @ InFlight pr # post" "length pre = i"
    "\<forall>w. (workers s)[i := w] = pre @ w # post"
    by metis
  with a WorkerFinish show ?thesis using that(8) by simp
next
  case WaitDone
  then show ?thesis using assms that(9) by (auto split: if_splits)
next
  case AggregatorReceive
  then show ?thesis using assms that(10) by (auto split: list.splits if_splits)
next
  case AggregatorReturn
  then show ?thesis using assms that(11) by (auto split: if_splits)
next
  case WatcherCancel
  then show ?thesis using assms that(12) by (auto split: if_splits)
next
  case WatcherCloseNotifier
  then show ?thesis using assms that(13) by (auto split: if_splits)
qed

lemma sendNotification_closed: "closed (fst (snd (sendNotification env e d))) = closed e"
  by (simp add: sendNotification_def Let_def split: sum.splits prod.splits)

lemma spec_dispatch_closed: "closed (fst (snd (spec_dispatch cfg env e pr age k))) = closed e"
  by (cases k)
    (simp_all add: spec_dispatch_def SendApprovalReminder_def SendMergeReminder_def
      SendEscalation_def SendDraftOverdue_def sendNotification_closed Let_def)

lemma processPR_closed: "closed (fst (snd (processPR cfg env e pr))) = closed e"
proof (cases "spec_classify (Rules cfg) pr (time_Since (age_clock env) (CreatedAt pr))")
  case None
  then show ?thesis by (simp add: processPR_perform spec_perform_def)
next
  case (Some k)
  obtain err e' out where
    d: "spec_dispatch cfg env e pr (time_Since (age_clock env) (CreatedAt pr)) k = (err, e', out)"
    by (cases "spec_dispatch cfg env e pr (time_Since (age_clock env) (CreatedAt pr)) k")
  with spec_dispatch_closed[of cfg env e pr "time_Since (age_clock env) (CreatedAt pr)" k]
  have "closed e' = closed e" by simp
  with Some d show ?thesis by (simp add: processPR_perform spec_perform_def)
qed

lemma step_budget:
  assumes "step cfg ev s = Some s'"
  shows "budget s' < budget s"
  using assms
  by (cases rule: step_cases) (simp_all add: budget_def processPR_closed Close_def)

lemma exec_budget: "exec cfg evs s = Some s' \<Longrightarrow> length evs + budget s' \<le> budget s"
proof (induction evs arbitrary: s)
  case Nil
  then show ?case by simp
next
  case (Cons ev evs)
  then obtain t where t: "step cfg ev s = Some t" "exec cfg evs t = Some s'"
    by (auto split: option.splits)
  from Cons.IH[OF t(2)] step_budget[OF t(1)] show ?case by simp
qed

lemma step_load:
  assumes "step cfg ev s = Some s'"
  shows "load s' \<le> load s \<and> chanCap s' = chanCap s \<and> length (workers s') = length (workers s)"
  using assms
  by (cases rule: step_cases) (simp_all add: load_def held_def flying_def)

lemma exec_load:
  "exec cfg evs s = Some s' \<Longrightarrow>
     load s' \<le> load s \<and> chanCap s' = chanCap s \<and> length (workers s') = length (workers s)"
proof (induction evs arbitrary: s)
  case Nil
  then show ?case by simp
next
  case (Cons ev evs)
  then obtain t where t: "step cfg ev s = Some t" "exec cfg evs t = Some s'"
    by (auto split: option.splits)
  from Cons.IH[OF t(2)] step_load[OF t(1)] show ?case by simp
qed

lemma exec_append:
  "exec cfg (evs @ evs') s = (case exec cfg evs s of None \<Rightarrow> None | Some t \<Rightarrow> exec cfg evs' t)"
  by (induction evs arbitrary: s) (auto split: option.splits)

lemma find_active:
  assumes "\<not> list_all (\<lambda>w. w = Exited) ws"
  shows "\<exists>i. i < length ws \<and> ws ! i \<noteq> Exited"
  using assms by (auto simp: list_all_length)

lemma nth_in_load:
  assumes "i < length (workers s)" "workers s ! i = InFlight pr"
  shows "0 < length (flying s)"
proof -
  from nth_split[OF assms(1)] assms(2) obtain pre post where
    "workers s = pre @ InFlight pr # post" by metis
  then show ?thesis by (simp add: flying_def)
qed

lemma progress:
  assumes "load s \<le> chanCap s" "\<not> returned s"
  shows "\<exists>ev s'. step cfg ev s = Some s' \<and> (\<forall>i e. ev = WorkerFinish i e \<longrightarrow> e = env)"
proof (cases "resultChan s")
  case (Cons r q)
  with assms(2) have "step cfg AggregatorReceive s \<noteq> None" by simp
  then show ?thesis by blast
next
  case Nil
  show ?thesis
  proof (cases "list_all (\<lambda>w. w = Exited) (workers s)")
    case True
    show ?thesis
    proof (cases "resultChanClosed s")
      case True
      with Nil assms(2) have "step cfg AggregatorReturn s \<noteq> None" by simp
      then show ?thesis by blast
    next
      case False
      with True have "step cfg WaitDone s \<noteq> None" by simp
      then show ?thesis by blast
    qed
  next
    case False
    then obtain i where i: "i < length (workers s)" "workers s ! i \<noteq> Exited"
      using find_active by blast
    show ?thesis
    proof (cases "workers s ! i")
      case Idle
      show ?thesis
      proof (cases "prChan s")
        case (Cons pr q)
        with i Idle have "step cfg (WorkerReceive i) s \<noteq> None" by simp
        then show ?thesis by blast
      next
        case prNil: Nil
        show ?thesis
        proof (cases "prChanClosed s")
          case True
          with i Idle prNil have "step cfg (WorkerChanClosed i) s \<noteq> None" by simp
          then show ?thesis by blast
        next
          case notClosed: False
          show ?thesis
          proof (cases "feed s")
            case Nil
            with notClosed have "step cfg FeederDone s \<noteq> None" by simp
            then show ?thesis by blast
          next
            case (Cons pr rest)
            with assms(1) prNil have "length (prChan s) < chanCap s" by (simp add: load_def)
            with Cons notClosed have "step cfg FeederSend s \<noteq> None" by simp
            then show ?thesis by blast
          qed
        qed
      qed
    next
      case (Holding pr)
      show ?thesis
      proof (cases "cancelled s")
        case True
        with i Holding have "step cfg (WorkerCancelled i) s \<noteq> None" by simp
        then show ?thesis by blast
      next
        case False
        with i Holding have "step cfg (WorkerStart i) s \<noteq> None" by simp
        then show ?thesis by blast
      qed
    next
      case (InFlight pr)
      with i nth_in_load have "0 < length (flying s)" by blast
      with assms(1) Nil have "length (resultChan s) < chanCap s"
        by (cases "flying s") (simp_all add: load_def)
      with i InFlight have "step cfg (WorkerFinish i env) s \<noteq> None"
        by (simp split: prod.splits)
      then show ?thesis by blast
    next
      case Exited
      with i show ?thesis by simp
    qed
  qed
qed

lemma completes:
  "load s \<le> chanCap s \<Longrightarrow> \<exists>evs s'. exec cfg evs s = Some s' \<and> returned s'"
proof (induction "budget s" arbitrary: s rule: less_induct)
  case less
  show ?case
  proof (cases "returned s")
    case True
    then have "exec cfg [] s = Some s \<and> returned s" by simp
    then show ?thesis by blast
  next
    case False
    with less.prems progress[of s cfg] obtain ev t where t: "step cfg ev s = Some t"
      by blast
    from step_budget[OF t] step_load[OF t] less.prems
    have "budget t < budget s" "load t \<le> chanCap t" by simp_all
    from less.hyps[OF this] obtain evs s' where "exec cfg evs t = Some s'" "returned s'"
      by blast
    with t have "exec cfg (ev # evs) s = Some s' \<and> returned s'" by simp
    then show ?thesis by blast
  qed
qed

lemma initial_load: "load (initial e ctxDone prs n) = chanCap (initial e ctxDone prs n)"
  by (simp add: load_def initial_def held_def flying_def)

lemma step_results_ok:
  assumes "step cfg ev s = Some s'" "results_ok s"
  shows "results_ok s'"
  using assms
  by (cases rule: step_cases) (simp_all add: results_ok_def)

lemma step_calls_ok:
  assumes "step cfg ev s = Some s'" "calls_ok cfg s"
  shows "calls_ok cfg s'"
  using assms
  by (cases rule: step_cases) (simp_all add: calls_ok_def)

lemma step_ledger:
  assumes "step cfg ev s = Some s'"
  shows "ledger s' \<subseteq># ledger s \<and> (\<not> cancelled s' \<longrightarrow> ledger s' = ledger s \<and> \<not> cancelled s)"
  using assms
  by (cases rule: step_cases) (simp_all add: ledger_def held_def flying_def)

lemma step_shape_ok:
  assumes "step cfg ev s = Some s'" "shape_ok s"
  shows "shape_ok s'"
  using assms
  by (cases rule: step_cases) (auto simp: shape_ok_def)

lemma exec_invariant:
  assumes "\<And>ev s s'. step cfg ev s = Some s' \<Longrightarrow> P s \<Longrightarrow> P s'"
    and "exec cfg evs s = Some s'" and "P s"
  shows "P s'"
  using assms(2,3)
proof (induction evs arbitrary: s)
  case Nil
  then show ?case by simp
next
  case (Cons ev evs)
  then obtain t where t: "step cfg ev s = Some t" "exec cfg evs t = Some s'"
    by (auto split: option.splits)
  from assms(1)[OF t(1) Cons.prems(2)] Cons.IH[OF t(2)] show ?case by simp
qed

lemma exec_ledger:
  "exec cfg evs s = Some s' \<Longrightarrow>
     ledger s' \<subseteq># ledger s \<and> (\<not> cancelled s' \<longrightarrow> ledger s' = ledger s \<and> \<not> cancelled s)"
proof (induction evs arbitrary: s)
  case Nil
  then show ?case by simp
next
  case (Cons ev evs)
  then obtain t where t: "step cfg ev s = Some t" "exec cfg evs t = Some s'"
    by (auto split: option.splits)
  from Cons.IH[OF t(2)] step_ledger[OF t(1)] show ?case
    by (auto intro: subset_mset.order_trans)
qed

lemma initial_ok:
  "results_ok (initial e d prs n)" "calls_ok cfg (initial e d prs n)"
  "shape_ok (initial e d prs n)" "ledger (initial e d prs n) = mset prs"
  by (simp_all add: results_ok_def calls_ok_def shape_ok_def ledger_def initial_def
      held_def flying_def)

lemma foldl_addResult_counter:
  "counter k (foldl addResult a rs) = counter k a + sum_list (map (counter k) rs)"
  by (induction rs arbitrary: a) (auto simp: addResult_def counter_def split: NotificationType.splits)

lemma foldl_addResult_Errors:
  "Errors (foldl addResult a rs) = Errors a @ concat (map Errors rs)"
  by (induction rs arbitrary: a) (auto simp: addResult_def)

lemma call_result_spec:
  assumes "call_result c = fst (processPR cfg (call_env c) (call_notifier c) (call_pr c))"
  shows "call_result c =
     (case call_action cfg c of
        None \<Rightarrow> emptyResult
      | Some k \<Rightarrow> spec_outcome (call_pr c) k (call_error cfg c))"
  using assms
  by (simp add: processPR_perform spec_perform_def call_action_def call_error_def call_age_def
      split: option.splits prod.splits)

lemma call_result_counter:
  assumes "call_result c = fst (processPR cfg (call_env c) (call_notifier c) (call_pr c))"
  shows "counter k (call_result c) = (if sent cfg k c then 1 else 0)"
  unfolding call_result_spec[OF assms]
  by (auto simp: sent_def spec_outcome_def countOne_def counter_def emptyResult_def
      split: option.splits NotificationType.splits)

lemma call_result_Errors:
  assumes "call_result c = fst (processPR cfg (call_env c) (call_notifier c) (call_pr c))"
  shows "Errors (call_result c) = call_errors cfg c"
  unfolding call_result_spec[OF assms]
  by (auto simp: call_errors_def spec_outcome_def countOne_def emptyResult_def
      split: option.splits NotificationType.splits)

lemma sum_list_indicator:
  "sum_list (map (\<lambda>c. if P c then 1 else 0) cs) = int (length (filter P cs))"
  by (induction cs) auto

text \<open>What a returned run reports, for any schedule.\<close>

lemma returned_total:
  assumes "exec cfg evs (initial e d prs n) = Some s" "returned s"
  shows "counter k (totalResult s) = int (length (filter (sent cfg k) (calls s)))"
    and "Errors (totalResult s) = concat (map (call_errors cfg) (calls s))"
    and "totalResult s = foldl addResult emptyResult (map call_result (calls s))"
    and "mset (map call_pr (calls s)) \<subseteq># mset prs"
proof -
  have r: "results_ok s"
    using exec_invariant[where P = results_ok, OF step_results_ok assms(1) initial_ok(1)] .
  have c: "calls_ok cfg s"
    using exec_invariant[where P = "calls_ok cfg", OF step_calls_ok assms(1) initial_ok(2)] .
  have h: "shape_ok s"
    using exec_invariant[where P = shape_ok, OF step_shape_ok assms(1) initial_ok(3)] .
  from h assms(2) have "resultChan s = []" by (simp add: shape_ok_def)
  with r show t: "totalResult s = foldl addResult emptyResult (map call_result (calls s))"
    by (simp add: results_ok_def)
  have z: "counter k emptyResult = 0"
    by (simp add: counter_def emptyResult_def split: NotificationType.splits)
  have m: "map (counter k) (map call_result (calls s)) =
      map (\<lambda>c. if sent cfg k c then 1 else 0) (calls s)"
    using c call_result_counter by (simp add: calls_ok_def)
  show "counter k (totalResult s) = int (length (filter (sent cfg k) (calls s)))"
    unfolding t foldl_addResult_counter z m sum_list_indicator by simp
  have me: "map Errors (map call_result (calls s)) = map (call_errors cfg) (calls s)"
    using c call_result_Errors by (simp add: calls_ok_def)
  show "Errors (totalResult s) = concat (map (call_errors cfg) (calls s))"
    unfolding t foldl_addResult_Errors me by (simp add: emptyResult_def)
  from exec_ledger[OF assms(1)] have "ledger s \<subseteq># mset prs" by (simp add: initial_ok(4))
  then show "mset (map call_pr (calls s)) \<subseteq># mset prs"
    by (auto simp: ledger_def intro: subset_mset.order_trans[rotated])
qed

lemma all_Exited:
  assumes "list_all (\<lambda>w. w = Exited) ws"
  shows "concat (map holding ws) = [] \<and> concat (map inflight ws) = []"
  using assms by (induction ws) auto

lemma returned_all_processed:
  assumes "exec cfg evs (initial e d prs n) = Some s" "returned s" "\<not> cancelled s" "0 < n"
  shows "mset (map call_pr (calls s)) = mset prs"
proof -
  have h: "shape_ok s"
    using exec_invariant[where P = shape_ok, OF step_shape_ok assms(1) initial_ok(3)] .
  from exec_load[OF assms(1)] assms(4) have "workers s \<noteq> []"
    by (auto simp: initial_def)
  moreover from h assms(2) have ex: "list_all (\<lambda>w. w = Exited) (workers s)"
    by (simp add: shape_ok_def)
  ultimately have "Exited \<in> set (workers s)"
    by (cases "workers s") auto
  with h assms(3) have "prChan s = []" "feed s = []" by (simp_all add: shape_ok_def)
  moreover from all_Exited[OF ex] have "held s = []" "flying s = []"
    by (simp_all add: held_def flying_def)
  moreover from exec_ledger[OF assms(1)] assms(3) have "ledger s = mset prs"
    by (simp add: initial_ok(4))
  ultimately show ?thesis by (simp add: ledger_def)
qed

lemma NewEmailNotifier_demo:
  "NewEmailNotifier (RateLimit (Email demoConfig)) (Email demoConfig) False = Inr demoNotifier"
  by (simp add: NewEmailNotifier_def demoNotifier_def demoConfig_def setDefaults_def
      negDuration_def minDuration_def Millisecond_def)

lemmas demo_defs = demoConfig_def demoNotifier_def demoPR_def demoEnv_def setDefaults_def
  Hour_def Minute_def Second_def Millisecond_def time_Since_def maxDuration_def minDuration_def

lemmas send_defs = SendApprovalReminder_def SendMergeReminder_def SendEscalation_def
  SendDraftOverdue_def sendNotification_def

lemma dialLoop_3:
  "dialLoop d 3 0 =
     (case d 0 of None \<Rightarrow> (None, True)
      | Some a \<Rightarrow> (case d 1 of None \<Rightarrow> (None, True)
        | Some b \<Rightarrow> (case d 2 of None \<Rightarrow> (None, True)
          | Some c \<Rightarrow> (Some (Errorf ''failed to send email after %d retries: %w'' [3] (Some c)),
              False))))"
  by (simp add: dialLoop.simps eval_nat_numeral split: option.splits)

lemma processPR_perform_at:
  assumes "time_Since (age_clock env) (CreatedAt pr) = age"
    and "spec_classify (Rules cfg) pr age = a"
  shows "processPR cfg env e pr = spec_perform cfg env e pr age a"
  using assms processPR_perform[of cfg env e pr] by simp

lemma demoPR_simps:
  "Draft (demoPR n d k) = d" "ReviewCount (demoPR n d k) = k" "CreatedAt (demoPR n d k) = 0"
  "Number (demoPR n d k) = n"
  by (simp_all add: demoPR_def)

lemma demoConfig_Rules:
  "ApprovalTime (Rules demoConfig) = 2 * Hour" "MergeReminderTime (Rules demoConfig) = 4 * Hour"
  "MergeTime (Rules demoConfig) = 6 * Hour" "DraftTime (Rules demoConfig) = 96 * Hour"
  "EscalationEmail (Rules demoConfig) = ''lead@example.com''"
  by (simp_all add: demoConfig_def setDefaults_def)

lemma demo_age:
  "0 \<le> h \<Longrightarrow> h \<le> 1000 \<Longrightarrow>
     time_Since (age_clock (demoEnv h ok)) (CreatedAt (demoPR n d k)) = h * Hour"
  by (simp add: demoEnv_def demoPR_def time_Since_def maxDuration_def minDuration_def Hour_def Minute_def
      Second_def Millisecond_def)

lemma reviewLoop_eq:
  "reviewLoop reviews (approved, reviewCount) =
     (approved \<or> (\<exists>r \<in> set reviews. GetState r = ''APPROVED''),
      reviewCount + int (length (filter (\<lambda>r. GetState r \<noteq> ''COMMENTED'') reviews)))"
  by (induction reviews arbitrary: approved reviewCount) auto

lemma sendNotification_Approved:
  "fst (sendNotification env e (d\<lparr>PullRequest := (PullRequest d)\<lparr>Approved := b\<rparr>\<rparr>)) =
     fst (sendNotification env e d) \<and>
   fst (snd (sendNotification env e (d\<lparr>PullRequest := (PullRequest d)\<lparr>Approved := b\<rparr>\<rparr>))) =
     fst (snd (sendNotification env e d)) \<and>
   map msg_To (snd (snd (sendNotification env e
       (d\<lparr>PullRequest := (PullRequest d)\<lparr>Approved := b\<rparr>\<rparr>)))) =
     map msg_To (snd (snd (sendNotification env e d)))"
  by (simp add: sendNotification_def Let_def split: sum.splits prod.splits)

lemma spec_dispatch_Approved:
  "fst (spec_dispatch cfg env e (pr\<lparr>Approved := b\<rparr>) age k) = fst (spec_dispatch cfg env e pr age k) \<and>
   fst (snd (spec_dispatch cfg env e (pr\<lparr>Approved := b\<rparr>) age k)) =
     fst (snd (spec_dispatch cfg env e pr age k)) \<and>
   map msg_To (snd (snd (spec_dispatch cfg env e (pr\<lparr>Approved := b\<rparr>) age k))) =
     map msg_To (snd (snd (spec_dispatch cfg env e pr age k)))"
proof (cases k)
  case ApprovalReminder
  then show ?thesis
    using sendNotification_Approved[where env = env and e = e and b = b and d = "\<lparr>Type = ApprovalReminder, PullRequest = pr,
      Age = age, Threshold = ApprovalTime (Rules cfg), Recipients = To (config e)\<rparr>"]
    by (simp add: spec_dispatch_def SendApprovalReminder_def)
next
  case MergeReminder
  then show ?thesis
    using sendNotification_Approved[where env = env and e = e and b = b and d = "\<lparr>Type = MergeReminder, PullRequest = pr,
      Age = age, Threshold = MergeReminderTime (Rules cfg), Recipients = To (config e)\<rparr>"]
    by (simp add: spec_dispatch_def SendMergeReminder_def)
next
  case Escalation
  then show ?thesis
    using sendNotification_Approved[where env = env and e = e and b = b and d = "\<lparr>Type = Escalation, PullRequest = pr,
      Age = age, Threshold = MergeTime (Rules cfg),
      Recipients = (if EscalationEmail (Rules cfg) \<noteq> []
        then To (config e) @ [EscalationEmail (Rules cfg)] else To (config e))\<rparr>"]
    by (simp add: spec_dispatch_def SendEscalation_def Let_def)
next
  case DraftOverdue
  then show ?thesis
    using sendNotification_Approved[where env = env and e = e and b = b and d = "\<lparr>Type = DraftOverdue, PullRequest = pr,
      Age = age, Threshold = DraftTime (Rules cfg), Recipients = To (config e)\<rparr>"]
    by (simp add: spec_dispatch_def SendDraftOverdue_def)
qed

lemma spec_classify_Approved:
  "spec_classify r (pr\<lparr>Approved := b\<rparr>) age = spec_classify r pr age"
  by (simp add: spec_classify_def spec_rules_def)

lemma spec_perform_Approved:
  "fst (spec_perform cfg env e (pr\<lparr>Approved := b\<rparr>) age a) = fst (spec_perform cfg env e pr age a) \<and>
   fst (snd (spec_perform cfg env e (pr\<lparr>Approved := b\<rparr>) age a)) =
     fst (snd (spec_perform cfg env e pr age a)) \<and>
   map msg_To (snd (snd (spec_perform cfg env e (pr\<lparr>Approved := b\<rparr>) age a))) =
     map msg_To (snd (snd (spec_perform cfg env e pr age a)))"
proof (cases a)
  case None
  then show ?thesis by (simp add: spec_perform_def)
next
  case (Some k)
  obtain err e' out where d: "spec_dispatch cfg env e pr age k = (err, e', out)"
    by (cases "spec_dispatch cfg env e pr age k")
  obtain err2 e2 out2 where
    d2: "spec_dispatch cfg env e (pr\<lparr>Approved := b\<rparr>) age k = (err2, e2, out2)"
    by (cases "spec_dispatch cfg env e (pr\<lparr>Approved := b\<rparr>) age k")
  from spec_dispatch_Approved[where cfg = cfg and env = env and e = e and pr = pr and b = b and age = age and k = k] d d2
  have "err2 = err" "e2 = e'" "map msg_To out2 = map msg_To out" by simp_all
  with Some d d2 show ?thesis by (simp add: spec_perform_def spec_outcome_def split: option.splits)
qed

lemma sendNotification_message:
  "m \<in> set (snd (snd (sendNotification env e d))) \<Longrightarrow>
     msg_To m = Recipients d \<and> msg_Data m = d \<and> msg_From m = From (config e)"
  by (auto simp: sendNotification_def Let_def split: sum.splits prod.splits if_splits)

lemma processPR_Rules:
  assumes "Rules cfg = Rules cfg'"
  shows "processPR cfg = processPR cfg'"
  unfolding processPR_def assms by (rule refl)

lemma step_Rules:
  assumes "Rules cfg = Rules cfg'"
  shows "step cfg ev s = step cfg' ev s"
  by (cases ev) (simp_all only: step.simps processPR_Rules[OF assms])

lemma exec_Rules:
  assumes "Rules cfg = Rules cfg'"
  shows "exec cfg evs s = exec cfg' evs s"
  by (induction evs arbitrary: s) (simp_all add: step_Rules[OF assms] split: option.splits)

lemma CheckPRs_SomeD:
  assumes "CheckPRs cfg (Inr prs) e ctxDone evs = Some r"
  obtains s n where "r = (None, Some s)" "0 < n"
    "n = (if Concurrency (Debug cfg) \<le> 0 then 5 else Concurrency (Debug cfg))"
    "exec cfg evs (initial e ctxDone prs n) = Some s" "returned s"
  using assms
  by (auto simp: CheckPRs_def processPRsConcurrently_def Let_def split: option.splits if_splits)

lemma initial_budget: "budget (initial e ctxDone prs n) \<le> 5 * length prs + nat n + 5"
  by (simp add: budget_def initial_def sum_list_replicate)

lemma exec_length:
  assumes "exec cfg evs (initial e ctxDone prs n) = Some s"
  shows "length evs \<le> 5 * length prs + nat n + 5"
  using exec_budget[OF assms] initial_budget[of e ctxDone prs n] by simp

lemma exec_completes:
  assumes "exec cfg evs (initial e ctxDone prs n) = Some s"
  shows "\<exists>evs'. processPRsConcurrently cfg e ctxDone prs n (evs @ evs') \<noteq> None"
proof -
  from exec_load[OF assms] have "load s \<le> chanCap s" by (simp add: initial_load)
  from completes[OF this] obtain evs' s' where "exec cfg evs' s = Some s'" "returned s'"
    by blast
  with assms have "processPRsConcurrently cfg e ctxDone prs n (evs @ evs') = Some s'"
    by (simp add: processPRsConcurrently_def exec_append)
  then show ?thesis by auto
qed

lemma CheckPRs_returned:
  "CheckPRs cfg (Inr prs) e ctxDone evs \<noteq> None \<Longrightarrow>
     \<exists>s. CheckPRs cfg (Inr prs) e ctxDone evs = Some (None, Some s)"
  by (cases "Concurrency (Debug cfg) \<le> 0")
    (auto simp: CheckPRs_def Let_def split: option.splits)

lemma length_filter_actions:
  "int (length (filter (\<lambda>c. f c \<noteq> None) cs)) =
     int (length (filter (\<lambda>c. f c = Some ApprovalReminder) cs)) +
     int (length (filter (\<lambda>c. f c = Some MergeReminder) cs)) +
     int (length (filter (\<lambda>c. f c = Some Escalation) cs)) +
     int (length (filter (\<lambda>c. f c = Some DraftOverdue) cs))"
proof (induction cs)
  case Nil
  then show ?case by simp
next
  case (Cons c cs)
  show ?case
  proof (cases "f c")
    case None
    with Cons show ?thesis by simp
  next
    case (Some k)
    with Cons show ?thesis by (cases k) simp_all
  qed
qed

lemma counter_fields:
  "ApprovalReminders r = counter ApprovalReminder r" "MergeReminders r = counter MergeReminder r"
  "Escalations r = counter Escalation r" "DraftOverdueSent r = counter DraftOverdue r"
  by (simp_all add: counter_def)

lemma step_after_cancel:
  assumes "step cfg ev s = Some s'" "cancelled s"
  shows "cancelled s' \<and>
    (\<exists>new. calls s' = calls s @ new \<and> mset (flying s') + mset (map call_pr new) = mset (flying s))"
  using assms
  by (cases rule: step_cases) (simp_all add: flying_def)

lemma exec_after_cancel:
  "exec cfg evs s = Some s' \<Longrightarrow> cancelled s \<Longrightarrow>
     \<exists>new. calls s' = calls s @ new \<and> mset (flying s') + mset (map call_pr new) = mset (flying s)"
proof (induction evs arbitrary: s)
  case Nil
  then show ?case by simp
next
  case (Cons ev evs)
  then obtain t where t: "step cfg ev s = Some t" "exec cfg evs t = Some s'"
    by (auto split: option.splits)
  from step_after_cancel[OF t(1) Cons.prems(2)] obtain new1 where
    1: "cancelled t" "calls t = calls s @ new1"
    "mset (flying t) + mset (map call_pr new1) = mset (flying s)"
    by blast
  from Cons.IH[OF t(2) 1(1)] obtain new2 where
    2: "calls s' = calls t @ new2" "mset (flying s') + mset (map call_pr new2) = mset (flying t)"
    by blast
  from 1 2 have "calls s' = calls s @ (new1 @ new2) \<and>
      mset (flying s') + mset (map call_pr (new1 @ new2)) = mset (flying s)"
    by (simp add: ac_simps) (metis add.assoc add.commute)
  then show ?case by blast
qed

lemma inflight_can_finish:
  assumes "load s \<le> chanCap s" "i < length (workers s)" "workers s ! i = InFlight pr"
  shows "step cfg (WorkerFinish i env) s \<noteq> None"
proof -
  from nth_in_load[OF assms(2,3)] have "flying s \<noteq> []" by simp
  with assms(1) have "length (resultChan s) < chanCap s"
    by (cases "flying s") (simp_all add: load_def)
  with assms(2,3) show ?thesis by (simp split: prod.splits)
qed

lemma Load_NoFile_Rules:
  assumes "getenv ''APPROVAL_TIME'' = []" and "getenv ''MERGE_TIME'' = []"
  shows "\<exists>cfg. Load parse getenv NoFile = Inr cfg \<and>
      ApprovalTime (Rules cfg) = 2 * Hour \<and> MergeReminderTime (Rules cfg) = 4 * Hour \<and>
      MergeTime (Rules cfg) = 4 * Hour \<and> DraftTime (Rules cfg) = 96 * Hour"
proof -
  have "0 < Hour" by (simp add: Hour_def Minute_def Second_def Millisecond_def)
  then show ?thesis
    using assms by (simp add: Load_def parseDuration_def setDefaults_def Let_def)
qed

section \<open>Claims\<close>

text \<open>
  C1. For every snapshot, thresholds, notifier state and environment, \<open>processPR\<close> does
  exactly what the priority list of the specification selects: it performs the action
  \<open>spec_classify\<close> returns (the first matching rule, or nothing), and no other action
  gives the same outcome. The action depends on the rules, the snapshot and its age only,
  not on the notifier or on earlier snapshots; \<open>processPR\<close> is a total function.
\<close>
theorem processPR_classifies_by_priority:
  "processPR cfg env e pr =
     spec_perform cfg env e pr (time_Since (age_clock env) (CreatedAt pr))
       (spec_classify (Rules cfg) pr (time_Since (age_clock env) (CreatedAt pr)))
   \<and> (\<forall>a. processPR cfg env e pr =
            spec_perform cfg env e pr (time_Since (age_clock env) (CreatedAt pr)) a
          \<longrightarrow> a = spec_classify (Rules cfg) pr (time_Since (age_clock env) (CreatedAt pr)))"
proof (intro conjI allI impI)
  show "processPR cfg env e pr =
     spec_perform cfg env e pr (time_Since (age_clock env) (CreatedAt pr))
       (spec_classify (Rules cfg) pr (time_Since (age_clock env) (CreatedAt pr)))"
    by (rule processPR_perform)
next
  fix a
  assume "processPR cfg env e pr =
    spec_perform cfg env e pr (time_Since (age_clock env) (CreatedAt pr)) a"
  then have "spec_perform cfg env e pr (time_Since (age_clock env) (CreatedAt pr)) a =
    spec_perform cfg env e pr (time_Since (age_clock env) (CreatedAt pr))
      (spec_classify (Rules cfg) pr (time_Since (age_clock env) (CreatedAt pr)))"
    by (simp add: processPR_perform)
  then show "a = spec_classify (Rules cfg) pr (time_Since (age_clock env) (CreatedAt pr))"
    by (rule spec_perform_inj)
qed

theorem processPR_classifies_by_priority_witness:
  "processPR demoConfig (demoEnv 7 True) demoNotifier (demoPR 1 False 3) =
     spec_perform demoConfig (demoEnv 7 True) demoNotifier (demoPR 1 False 3) (7 * Hour)
       (Some Escalation)"
proof -
  have age: "time_Since (age_clock (demoEnv 7 True)) (CreatedAt (demoPR 1 False 3)) = 7 * Hour"
    by (simp add: demo_defs)
  have "spec_classify (Rules demoConfig) (demoPR 1 False 3) (7 * Hour) = Some Escalation"
    by (simp add: demo_defs spec_classify_def spec_rules_def)
  with age processPR_classifies_by_priority
    [of demoConfig "demoEnv 7 True" demoNotifier "demoPR 1 False 3", THEN conjunct1]
  show ?thesis by simp
qed

text \<open>
  C2. For every list of snapshots, every configured worker count and every schedule of a
  run of \<open>CheckPRs\<close> that returns without cancellation and in which no dispatch failed:
  every input snapshot was processed exactly once, the four counters of the run result add
  up to the number of processed snapshots classified as an action, and the error list is
  empty.
\<close>
theorem count_conservation:
  assumes "CheckPRs cfg (Inr prs) e ctxDone evs = Some (err, Some s)"
    and "\<not> cancelled s"
    and "\<forall>c \<in> set (calls s). call_error cfg c = None"
  shows "mset (map call_pr (calls s)) = mset prs \<and>
     ApprovalReminders (totalResult s) + MergeReminders (totalResult s) +
       Escalations (totalResult s) + DraftOverdueSent (totalResult s) =
       int (length (filter (\<lambda>c. call_action cfg c \<noteq> None) (calls s))) \<and>
     Errors (totalResult s) = []"
proof -
  from assms(1) obtain n where n: "0 < n" "exec cfg evs (initial e ctxDone prs n) = Some s"
    "returned s"
    by (elim CheckPRs_SomeD) auto
  have all: "mset (map call_pr (calls s)) = mset prs"
    using returned_all_processed[OF n(2,3) assms(2) n(1)] .
  have f: "\<And>k. filter (sent cfg k) (calls s) = filter (\<lambda>c. call_action cfg c = Some k) (calls s)"
    using assms(3) by (intro filter_cong) (simp_all add: sent_def)
  have cnt: "\<And>k. counter k (totalResult s) =
      int (length (filter (\<lambda>c. call_action cfg c = Some k) (calls s)))"
    using returned_total(1)[OF n(2,3)] f by simp
  have sum: "ApprovalReminders (totalResult s) + MergeReminders (totalResult s) +
       Escalations (totalResult s) + DraftOverdueSent (totalResult s) =
       int (length (filter (\<lambda>c. call_action cfg c \<noteq> None) (calls s)))"
    unfolding counter_fields cnt length_filter_actions[of "call_action cfg"] ..
  have "\<forall>c \<in> set (calls s). call_errors cfg c = []"
    using assms(3) by (simp add: call_errors_def split: option.splits)
  then have "concat (map (call_errors cfg) (calls s)) = []" by simp
  then have err: "Errors (totalResult s) = []"
    using returned_total(2)[OF n(2,3)] by simp
  from all sum err show ?thesis by blast
qed

text \<open>Two snapshots, one escalated and one needing nothing: the counters add up to 1.\<close>
theorem count_conservation_witness:
  "\<exists>s. CheckPRs demoConfig (Inr [demoPR 1 False 3, demoPR 2 False 0]) demoNotifier False
          (demoRun (demoEnv 7 True) (demoEnv 1 True)) = Some (None, Some s) \<and>
        \<not> cancelled s \<and>
        mset (map call_pr (calls s)) = mset [demoPR 1 False 3, demoPR 2 False 0] \<and>
        ApprovalReminders (totalResult s) + MergeReminders (totalResult s) +
          Escalations (totalResult s) + DraftOverdueSent (totalResult s) = 1"
proof -
  let ?r = "CheckPRs demoConfig (Inr [demoPR 1 False 3, demoPR 2 False 0]) demoNotifier False
          (demoRun (demoEnv 7 True) (demoEnv 1 True))"
  have "?r \<noteq> None" by code_simp
  then obtain s where s: "?r = Some (None, Some s)" using CheckPRs_returned by blast
  have "\<not> cancelled (the (snd (the ?r)))" by code_simp
  with s have c: "\<not> cancelled s" by simp
  have "list_all (\<lambda>c. call_error demoConfig c = None) (calls (the (snd (the ?r))))"
    by code_simp
  with s have ok: "\<forall>c \<in> set (calls s). call_error demoConfig c = None"
    by (simp add: list_all_iff)
  have "length (filter (\<lambda>c. call_action demoConfig c \<noteq> None) (calls (the (snd (the ?r))))) = 1"
    by code_simp
  with s have "int (length (filter (\<lambda>c. call_action demoConfig c \<noteq> None) (calls s))) = 1"
    by simp
  with count_conservation[OF s c ok] s c show ?thesis by simp
qed



text \<open>
  C4. When the fetch fails, \<open>CheckPRs\<close> returns the wrapped fetch error at once: no
  pipeline is started, so nothing is classified, dispatched or reported. When the fetch
  succeeds, a run that returns returns no error, under every schedule and every outcome of
  the dispatches. And the run does return: every execution is at most
  \<open>5 * length prs + n + 5\<close> steps long and can be continued to the return of
  \<open>processPRsConcurrently\<close>.
\<close>
theorem CheckPRs_fails_only_on_fetch:
  "CheckPRs cfg (Inl ferr) e ctxDone evs =
     Some (Some (Errorf ''failed to fetch pull requests: %w'' [] (Some ferr)), None) \<and>
   (\<forall>r. CheckPRs cfg (Inr prs) e ctxDone evs = Some r \<longrightarrow> fst r = None \<and> snd r \<noteq> None) \<and>
   (\<forall>r. CheckPRs cfg fetched e ctxDone evs = Some r \<longrightarrow> (fst r \<noteq> None \<longleftrightarrow> isl fetched)) \<and>
   (\<forall>n s. exec cfg evs (initial e ctxDone prs n) = Some s \<longrightarrow>
      length evs \<le> 5 * length prs + nat n + 5 \<and>
      (\<exists>evs'. processPRsConcurrently cfg e ctxDone prs n (evs @ evs') \<noteq> None)) \<and>
   (\<exists>evs'. CheckPRs cfg (Inr prs) e ctxDone evs' \<noteq> None)"
proof -
  have 1: "CheckPRs cfg (Inl ferr) e ctxDone evs =
     Some (Some (Errorf ''failed to fetch pull requests: %w'' [] (Some ferr)), None)"
    by (simp add: CheckPRs_def)
  have 2: "\<forall>r. CheckPRs cfg (Inr prs) e ctxDone evs = Some r \<longrightarrow> fst r = None \<and> snd r \<noteq> None"
    by (auto elim!: CheckPRs_SomeD)
  have 3: "\<forall>r. CheckPRs cfg fetched e ctxDone evs = Some r \<longrightarrow> (fst r \<noteq> None \<longleftrightarrow> isl fetched)"
  proof (cases fetched)
    case (Inl a)
    then show ?thesis by (simp add: CheckPRs_def)
  next
    case (Inr b)
    then show ?thesis by (auto elim!: CheckPRs_SomeD)
  qed
  have 4: "\<forall>n s. exec cfg evs (initial e ctxDone prs n) = Some s \<longrightarrow>
      length evs \<le> 5 * length prs + nat n + 5 \<and>
      (\<exists>evs'. processPRsConcurrently cfg e ctxDone prs n (evs @ evs') \<noteq> None)"
    using exec_length exec_completes by blast
  have 5: "\<exists>evs'. CheckPRs cfg (Inr prs) e ctxDone evs' \<noteq> None"
  proof -
    define n where "n = (if Concurrency (Debug cfg) \<le> 0 then 5 else Concurrency (Debug cfg))"
    have "exec cfg [] (initial e ctxDone prs n) = Some (initial e ctxDone prs n)" by simp
    from exec_completes[OF this] obtain evs' where
      "processPRsConcurrently cfg e ctxDone prs n evs' \<noteq> None" by auto
    then have "CheckPRs cfg (Inr prs) e ctxDone evs' \<noteq> None"
      by (auto simp: CheckPRs_def n_def Let_def)
    then show ?thesis by blast
  qed
  from 1 2 3 4 5 show ?thesis by blast
qed

text \<open>
  A failed fetch; a run whose escalation fails at every SMTP attempt and still returns no
  error; a cancelled execution that can be continued to its return.
\<close>
theorem CheckPRs_fails_only_on_fetch_witness:
  "CheckPRs demoConfig (Inl (External ''api unreachable'')) demoNotifier False [] =
     Some (Some (Errorf ''failed to fetch pull requests: %w'' []
                   (Some (External ''api unreachable''))), None) \<and>
   (\<exists>s. CheckPRs demoConfig (Inr [demoPR 1 False 3, demoPR 2 False 0]) demoNotifier False
           (demoRun (demoEnv 7 False) (demoEnv 3 True)) = Some (None, Some s)) \<and>
   (\<exists>evs'. processPRsConcurrently demoConfig demoNotifier False
             [demoPR 1 False 3, demoPR 2 False 0] 2 (cancelPrefix @ evs') \<noteq> None)"
proof -
  note T = CheckPRs_fails_only_on_fetch[where cfg = demoConfig and e = demoNotifier
      and ctxDone = False and prs = "[demoPR 1 False 3, demoPR 2 False 0]"]
  let ?r = "CheckPRs demoConfig (Inr [demoPR 1 False 3, demoPR 2 False 0]) demoNotifier False
          (demoRun (demoEnv 7 False) (demoEnv 3 True))"
  have 1: "CheckPRs demoConfig (Inl (External ''api unreachable'')) demoNotifier False [] =
     Some (Some (Errorf ''failed to fetch pull requests: %w'' []
                   (Some (External ''api unreachable''))), None)"
    using T[where ferr = "External ''api unreachable''" and evs = "[]", THEN conjunct1] .
  have "?r \<noteq> None" by code_simp
  then obtain r where r: "?r = Some r" by blast
  from T[where evs = "demoRun (demoEnv 7 False) (demoEnv 3 True)", THEN conjunct2,
      THEN conjunct1, rule_format, OF r]
  have "fst r = None" "snd r \<noteq> None" by simp_all
  with r have 2: "\<exists>s. ?r = Some (None, Some s)" by (cases r) auto
  have "exec demoConfig cancelPrefix
      (initial demoNotifier False [demoPR 1 False 3, demoPR 2 False 0] 2) \<noteq> None"
    by code_simp
  then obtain s where "exec demoConfig cancelPrefix
      (initial demoNotifier False [demoPR 1 False 3, demoPR 2 False 0] 2) = Some s"
    by blast
  from T[where evs = cancelPrefix, THEN conjunct2, THEN conjunct2, THEN conjunct2,
      THEN conjunct1, rule_format, OF this]
  have 3: "\<exists>evs'. processPRsConcurrently demoConfig demoNotifier False
             [demoPR 1 False 3, demoPR 2 False 0] 2 (cancelPrefix @ evs') \<noteq> None"
    by simp
  from 1 2 3 show ?thesis by blast
qed

text \<open>
  C5 as stated fails. In this run worker 0 starts on the first pull request, the watcher
  is cancelled, and the escalation of worker 0 completes afterwards: the reported result
  counts it, while no call completed before the cancellation, so that the aggregate of
  the calls completed before it is empty. After the cancellation worker 1 still takes the
  second pull request off the queue.
\<close>
theorem cancellation_counterexample:
  "processPRsConcurrently demoConfig demoNotifier False [demoPR 1 False 3, demoPR 2 False 0] 2
     (cancelPrefix @ cancelRest (demoEnv 7 True)) \<noteq> None \<and>
   totalResult (the (processPRsConcurrently demoConfig demoNotifier False
     [demoPR 1 False 3, demoPR 2 False 0] 2 (cancelPrefix @ cancelRest (demoEnv 7 True)))) =
     emptyResult\<lparr>Escalations := 1\<rparr> \<and>
   map call_cancelled (calls (the (processPRsConcurrently demoConfig demoNotifier False
     [demoPR 1 False 3, demoPR 2 False 0] 2 (cancelPrefix @ cancelRest (demoEnv 7 True))))) =
     [True] \<and>
   foldl addResult emptyResult (map call_result (completedBeforeCancel
     (the (processPRsConcurrently demoConfig demoNotifier False
       [demoPR 1 False 3, demoPR 2 False 0] 2 (cancelPrefix @ cancelRest (demoEnv 7 True)))))) =
     emptyResult \<and>
   totalResult (the (processPRsConcurrently demoConfig demoNotifier False
     [demoPR 1 False 3, demoPR 2 False 0] 2 (cancelPrefix @ cancelRest (demoEnv 7 True)))) \<noteq>
     foldl addResult emptyResult (map call_result (completedBeforeCancel
       (the (processPRsConcurrently demoConfig demoNotifier False
         [demoPR 1 False 3, demoPR 2 False 0] 2
         (cancelPrefix @ cancelRest (demoEnv 7 True)))))) \<and>
   cancelled (the (exec demoConfig cancelPrefix
     (initial demoNotifier False [demoPR 1 False 3, demoPR 2 False 0] 2))) \<and>
   step demoConfig (WorkerReceive 1) (the (exec demoConfig cancelPrefix
     (initial demoNotifier False [demoPR 1 False 3, demoPR 2 False 0] 2))) \<noteq> None \<and>
   workers (the (step demoConfig (WorkerReceive 1) (the (exec demoConfig cancelPrefix
     (initial demoNotifier False [demoPR 1 False 3, demoPR 2 False 0] 2))))) ! 1 =
     Holding (demoPR 2 False 0)"
  by code_simp

text \<open>
  C5, amended. In every state a run can reach: once the watcher is cancelled no worker
  starts processing a snapshot; a worker that is processing one can always finish and
  deliver its result; from a cancelled state on, the only calls that complete are those of
  snapshots in flight in that state; and when the run has returned, its result is the
  aggregate of the results of all completed calls of \<open>processPR\<close>, each on an input
  snapshot taken at most once.
\<close>
theorem cancellation_reports_completed_work:
  assumes "exec cfg evs (initial e ctxDone prs n) = Some s"
  shows "(cancelled s \<longrightarrow> (\<forall>i. step cfg (WorkerStart i) s = None)) \<and>
     (\<forall>i pr env. i < length (workers s) \<and> workers s ! i = InFlight pr \<longrightarrow>
        step cfg (WorkerFinish i env) s \<noteq> None) \<and>
     (\<forall>evs' s'. cancelled s \<and> exec cfg evs' s = Some s' \<longrightarrow>
        (\<exists>new. calls s' = calls s @ new \<and> mset (map call_pr new) \<subseteq># mset (flying s))) \<and>
     (returned s \<longrightarrow>
        totalResult s = foldl addResult emptyResult (map call_result (calls s)) \<and>
        (\<forall>c \<in> set (calls s).
           call_result c = fst (processPR cfg (call_env c) (call_notifier c) (call_pr c))) \<and>
        mset (map call_pr (calls s)) \<subseteq># mset prs)"
proof -
  have 1: "cancelled s \<longrightarrow> (\<forall>i. step cfg (WorkerStart i) s = None)"
    by (auto split: Worker.splits)
  from exec_load[OF assms] have l: "load s \<le> chanCap s" by (simp add: initial_load)
  have 2: "\<forall>i pr env. i < length (workers s) \<and> workers s ! i = InFlight pr \<longrightarrow>
        step cfg (WorkerFinish i env) s \<noteq> None"
    using inflight_can_finish[OF l] by blast
  have 3: "\<forall>evs' s'. cancelled s \<and> exec cfg evs' s = Some s' \<longrightarrow>
        (\<exists>new. calls s' = calls s @ new \<and> mset (map call_pr new) \<subseteq># mset (flying s))"
  proof (intro allI impI)
    fix evs' s'
    assume "cancelled s \<and> exec cfg evs' s = Some s'"
    then obtain new where "calls s' = calls s @ new"
      "mset (flying s') + mset (map call_pr new) = mset (flying s)"
      using exec_after_cancel by blast
    then have "calls s' = calls s @ new \<and> mset (map call_pr new) \<subseteq># mset (flying s)"
      by (metis mset_subset_eq_add_right)
    then show "\<exists>new. calls s' = calls s @ new \<and> mset (map call_pr new) \<subseteq># mset (flying s)"
      by blast
  qed
  have c: "calls_ok cfg s"
    using exec_invariant[where P = "calls_ok cfg", OF step_calls_ok assms initial_ok(2)] .
  have 4: "returned s \<longrightarrow>
        totalResult s = foldl addResult emptyResult (map call_result (calls s)) \<and>
        (\<forall>c \<in> set (calls s).
           call_result c = fst (processPR cfg (call_env c) (call_notifier c) (call_pr c))) \<and>
        mset (map call_pr (calls s)) \<subseteq># mset prs"
    using returned_total(3,4)[OF assms] c by (simp add: calls_ok_def)
  from 1 2 3 4 show ?thesis by blast
qed

text \<open>
  The cancelled run above. In the state the cancellation leaves, worker 1 cannot start,
  worker 0 can finish, and the one call completed afterwards is that of the snapshot in
  flight; the result returned is the aggregate of that call.
\<close>
theorem cancellation_reports_completed_work_witness:
  "\<exists>s0 s.
     exec demoConfig cancelPrefix
       (initial demoNotifier False [demoPR 1 False 3, demoPR 2 False 0] 2) = Some s0 \<and>
     cancelled s0 \<and> flying s0 = [demoPR 1 False 3] \<and> calls s0 = [] \<and>
     step demoConfig (WorkerStart 1) s0 = None \<and>
     step demoConfig (WorkerFinish 0 (demoEnv 7 True)) s0 \<noteq> None \<and>
     exec demoConfig (cancelRest (demoEnv 7 True)) s0 = Some s \<and>
     returned s \<and> map call_pr (calls s) = [demoPR 1 False 3] \<and>
     (\<exists>new. calls s = calls s0 @ new \<and> mset (map call_pr new) \<subseteq># mset (flying s0)) \<and>
     totalResult s = foldl addResult emptyResult (map call_result (calls s)) \<and>
     totalResult s = emptyResult\<lparr>Escalations := 1\<rparr>"
proof -
  let ?init = "initial demoNotifier False [demoPR 1 False 3, demoPR 2 False 0] 2"
  let ?pre = "exec demoConfig cancelPrefix ?init"
  let ?fin = "exec demoConfig (cancelRest (demoEnv 7 True)) (the ?pre)"
  have "?pre \<noteq> None" by code_simp
  then obtain s0 where s0: "?pre = Some s0" by blast
  have "cancelled (the ?pre)" "flying (the ?pre) = [demoPR 1 False 3]"
    "length (calls (the ?pre)) = 0" "length (workers (the ?pre)) = 2"
    "workers (the ?pre) ! 0 = InFlight (demoPR 1 False 3)"
    by code_simp+
  with s0 have p0: "cancelled s0" "flying s0 = [demoPR 1 False 3]" "calls s0 = []"
    "0 < length (workers s0)" "workers s0 ! 0 = InFlight (demoPR 1 False 3)"
    by simp_all
  have "?fin \<noteq> None" by code_simp
  with s0 obtain s where s: "exec demoConfig (cancelRest (demoEnv 7 True)) s0 = Some s"
    by auto
  have "returned (the ?fin)" "map call_pr (calls (the ?fin)) = [demoPR 1 False 3]"
    "totalResult (the ?fin) = emptyResult\<lparr>Escalations := 1\<rparr>"
    by code_simp+
  with s0 s have p: "returned s" "map call_pr (calls s) = [demoPR 1 False 3]"
    "totalResult s = emptyResult\<lparr>Escalations := 1\<rparr>"
    by simp_all
  from s0 s have full: "exec demoConfig (cancelPrefix @ cancelRest (demoEnv 7 True)) ?init = Some s"
    by (simp add: exec_append)
  note at0 = cancellation_reports_completed_work[OF s0]
  from at0 p0(1) have a: "step demoConfig (WorkerStart 1) s0 = None" by blast
  from at0 p0(4,5) have b: "step demoConfig (WorkerFinish 0 (demoEnv 7 True)) s0 \<noteq> None"
    by blast
  from at0 p0(1) s
  have c: "\<exists>new. calls s = calls s0 @ new \<and> mset (map call_pr new) \<subseteq># mset (flying s0)"
    by blast
  from cancellation_reports_completed_work[OF full] p(1)
  have t: "totalResult s = foldl addResult emptyResult (map call_result (calls s))" by blast
  show ?thesis
    by (intro exI[of _ s0] exI[of _ s] conjI) (fact s0 p0 a b s p c t)+
qed

text \<open>
  The six scenarios of the specification. With approvalTime 2h, mergeReminderTime 4h,
  mergeTime 6h and draftTime 96h, \<open>processPR\<close> does nothing for a non-draft of age 1h
  with no review, sends an approval reminder at age 3h with no review, a merge reminder at
  age 5h with three reviews, an escalation at age 7h with three reviews, a draft-overdue
  notice for a draft of age 100h and nothing for a draft of age 50h. These four thresholds
  are what \<open>setDefaults\<close> fills in when it meets all four unset.
\<close>
theorem default_threshold_scenarios:
  assumes "ApprovalTime (Rules cfg) = 2 * Hour" and "MergeReminderTime (Rules cfg) = 4 * Hour"
    and "MergeTime (Rules cfg) = 6 * Hour" and "DraftTime (Rules cfg) = 96 * Hour"
    and "time_Since (age_clock env) (CreatedAt pr) = age"
  shows
    "(\<not> Draft pr \<and> age = 1 * Hour \<and> ReviewCount pr = 0 \<longrightarrow>
        processPR cfg env e pr = spec_perform cfg env e pr age None) \<and>
     (\<not> Draft pr \<and> age = 3 * Hour \<and> ReviewCount pr = 0 \<longrightarrow>
        processPR cfg env e pr = spec_perform cfg env e pr age (Some ApprovalReminder)) \<and>
     (\<not> Draft pr \<and> age = 5 * Hour \<and> ReviewCount pr = 3 \<longrightarrow>
        processPR cfg env e pr = spec_perform cfg env e pr age (Some MergeReminder)) \<and>
     (\<not> Draft pr \<and> age = 7 * Hour \<and> ReviewCount pr = 3 \<longrightarrow>
        processPR cfg env e pr = spec_perform cfg env e pr age (Some Escalation)) \<and>
     (Draft pr \<and> age = 100 * Hour \<longrightarrow>
        processPR cfg env e pr = spec_perform cfg env e pr age (Some DraftOverdue)) \<and>
     (Draft pr \<and> age = 50 * Hour \<longrightarrow>
        processPR cfg env e pr = spec_perform cfg env e pr age None) \<and>
     (\<forall>c. ApprovalTime (Rules c) = 0 \<and> MergeReminderTime (Rules c) = 0 \<and>
          MergeTime (Rules c) = 0 \<and> DraftTime (Rules c) = 0 \<longrightarrow>
        ApprovalTime (Rules (setDefaults c)) = 2 * Hour \<and>
        MergeReminderTime (Rules (setDefaults c)) = 4 * Hour \<and>
        MergeTime (Rules (setDefaults c)) = 6 * Hour \<and>
        DraftTime (Rules (setDefaults c)) = 96 * Hour)"
proof -
  have pos: "0 < Hour" by (simp add: Hour_def Minute_def Second_def Millisecond_def)
  have c: "\<And>a. spec_classify (Rules cfg) pr age = a \<Longrightarrow>
      processPR cfg env e pr = spec_perform cfg env e pr age a"
    using assms(5) by (rule processPR_perform_at)
  have 1: "\<not> Draft pr \<and> age = 1 * Hour \<and> ReviewCount pr = 0 \<longrightarrow>
      processPR cfg env e pr = spec_perform cfg env e pr age None"
    using pos assms(1-4) by (intro impI c) (simp add: spec_classify_def spec_rules_def)
  have 2: "\<not> Draft pr \<and> age = 3 * Hour \<and> ReviewCount pr = 0 \<longrightarrow>
      processPR cfg env e pr = spec_perform cfg env e pr age (Some ApprovalReminder)"
    using pos assms(1-4) by (intro impI c) (simp add: spec_classify_def spec_rules_def)
  have 3: "\<not> Draft pr \<and> age = 5 * Hour \<and> ReviewCount pr = 3 \<longrightarrow>
      processPR cfg env e pr = spec_perform cfg env e pr age (Some MergeReminder)"
    using pos assms(1-4) by (intro impI c) (simp add: spec_classify_def spec_rules_def)
  have 4: "\<not> Draft pr \<and> age = 7 * Hour \<and> ReviewCount pr = 3 \<longrightarrow>
      processPR cfg env e pr = spec_perform cfg env e pr age (Some Escalation)"
    using pos assms(1-4) by (intro impI c) (simp add: spec_classify_def spec_rules_def)
  have 5: "Draft pr \<and> age = 100 * Hour \<longrightarrow>
      processPR cfg env e pr = spec_perform cfg env e pr age (Some DraftOverdue)"
    using pos assms(1-4) by (intro impI c) (simp add: spec_classify_def spec_rules_def)
  have 6: "Draft pr \<and> age = 50 * Hour \<longrightarrow>
      processPR cfg env e pr = spec_perform cfg env e pr age None"
    using pos assms(1-4) by (intro impI c) (simp add: spec_classify_def spec_rules_def)
  have 7: "\<forall>c. ApprovalTime (Rules c) = 0 \<and> MergeReminderTime (Rules c) = 0 \<and>
          MergeTime (Rules c) = 0 \<and> DraftTime (Rules c) = 0 \<longrightarrow>
        ApprovalTime (Rules (setDefaults c)) = 2 * Hour \<and>
        MergeReminderTime (Rules (setDefaults c)) = 4 * Hour \<and>
        MergeTime (Rules (setDefaults c)) = 6 * Hour \<and>
        DraftTime (Rules (setDefaults c)) = 96 * Hour"
    by (simp add: setDefaults_def Let_def)
  from 1 2 3 4 5 6 7 show ?thesis by blast
qed

text \<open>The six scenarios on the default configuration, each with the hypotheses discharged.\<close>
theorem default_threshold_scenarios_witness:
  "processPR demoConfig (demoEnv 1 True) demoNotifier (demoPR 1 False 0) =
     spec_perform demoConfig (demoEnv 1 True) demoNotifier (demoPR 1 False 0) (1 * Hour) None \<and>
   processPR demoConfig (demoEnv 3 True) demoNotifier (demoPR 2 False 0) =
     spec_perform demoConfig (demoEnv 3 True) demoNotifier (demoPR 2 False 0) (3 * Hour)
       (Some ApprovalReminder) \<and>
   processPR demoConfig (demoEnv 5 True) demoNotifier (demoPR 3 False 3) =
     spec_perform demoConfig (demoEnv 5 True) demoNotifier (demoPR 3 False 3) (5 * Hour)
       (Some MergeReminder) \<and>
   processPR demoConfig (demoEnv 7 True) demoNotifier (demoPR 4 False 3) =
     spec_perform demoConfig (demoEnv 7 True) demoNotifier (demoPR 4 False 3) (7 * Hour)
       (Some Escalation) \<and>
   processPR demoConfig (demoEnv 100 True) demoNotifier (demoPR 5 True 0) =
     spec_perform demoConfig (demoEnv 100 True) demoNotifier (demoPR 5 True 0) (100 * Hour)
       (Some DraftOverdue) \<and>
   processPR demoConfig (demoEnv 50 True) demoNotifier (demoPR 6 True 0) =
     spec_perform demoConfig (demoEnv 50 True) demoNotifier (demoPR 6 True 0) (50 * Hour) None"
proof -
  note T = default_threshold_scenarios[OF demoConfig_Rules(1-4)]
  have 1: "processPR demoConfig (demoEnv 1 True) demoNotifier (demoPR 1 False 0) =
     spec_perform demoConfig (demoEnv 1 True) demoNotifier (demoPR 1 False 0) (1 * Hour) None"
    using T[OF demo_age[of 1 True 1 False 0], of demoNotifier] by (simp add: demoPR_simps)
  have 2: "processPR demoConfig (demoEnv 3 True) demoNotifier (demoPR 2 False 0) =
     spec_perform demoConfig (demoEnv 3 True) demoNotifier (demoPR 2 False 0) (3 * Hour)
       (Some ApprovalReminder)"
    using T[OF demo_age[of 3 True 2 False 0], of demoNotifier] by (simp add: demoPR_simps)
  have 3: "processPR demoConfig (demoEnv 5 True) demoNotifier (demoPR 3 False 3) =
     spec_perform demoConfig (demoEnv 5 True) demoNotifier (demoPR 3 False 3) (5 * Hour)
       (Some MergeReminder)"
    using T[OF demo_age[of 5 True 3 False 3], of demoNotifier] by (simp add: demoPR_simps)
  have 4: "processPR demoConfig (demoEnv 7 True) demoNotifier (demoPR 4 False 3) =
     spec_perform demoConfig (demoEnv 7 True) demoNotifier (demoPR 4 False 3) (7 * Hour)
       (Some Escalation)"
    using T[OF demo_age[of 7 True 4 False 3], of demoNotifier] by (simp add: demoPR_simps)
  have 5: "processPR demoConfig (demoEnv 100 True) demoNotifier (demoPR 5 True 0) =
     spec_perform demoConfig (demoEnv 100 True) demoNotifier (demoPR 5 True 0) (100 * Hour)
       (Some DraftOverdue)"
    using T[OF demo_age[of 100 True 5 True 0], of demoNotifier] by (simp add: demoPR_simps)
  have 6: "processPR demoConfig (demoEnv 50 True) demoNotifier (demoPR 6 True 0) =
     spec_perform demoConfig (demoEnv 50 True) demoNotifier (demoPR 6 True 0) (50 * Hour) None"
    using T[OF demo_age[of 50 True 6 True 0], of demoNotifier] by (simp add: demoPR_simps)
  from 1 2 3 4 5 6 show ?thesis by blast
qed

text \<open>
  C6. The scenarios hold with the thresholds 2h, 4h, 6h and 96h (above), but these are
  not the defaults of every configuration. Without a configuration file, and with
  \<^verbatim>\<open>APPROVAL_TIME\<close> and \<^verbatim>\<open>MERGE_TIME\<close> not set, \<^verbatim>\<open>Load\<close> passes 4h as the fallback
  of the merge time; \<^verbatim>\<open>setDefaults\<close> then finds the merge time set and leaves it, so
  the thresholds are 2h, 4h, 4h and 96h. With them the non-draft of age 5h with three
  reviews is escalated, and \<open>processPR\<close> never sends a merge reminder, whatever the
  snapshot and its age. A configuration file that leaves the merge time unset gets 6h from
  the same \<^verbatim>\<open>setDefaults\<close>.
\<close>
theorem Load_without_file_merges_at_4h:
  assumes "getenv ''APPROVAL_TIME'' = []" and "getenv ''MERGE_TIME'' = []"
  shows "\<exists>cfg. Load parse getenv NoFile = Inr cfg \<and>
      ApprovalTime (Rules cfg) = 2 * Hour \<and> MergeReminderTime (Rules cfg) = 4 * Hour \<and>
      MergeTime (Rules cfg) = 4 * Hour \<and> DraftTime (Rules cfg) = 96 * Hour \<and>
      (\<forall>env e pr. \<not> Draft pr \<and> time_Since (age_clock env) (CreatedAt pr) = 5 * Hour \<and>
           ReviewCount pr = 3 \<longrightarrow>
         processPR cfg env e pr = spec_perform cfg env e pr (5 * Hour) (Some Escalation)) \<and>
      (\<forall>env e pr. processPR cfg env e pr \<noteq>
         spec_perform cfg env e pr (time_Since (age_clock env) (CreatedAt pr))
           (Some MergeReminder)) \<and>
      (\<forall>c. MergeTime (Rules c) = 0 \<longrightarrow>
         (\<exists>cfg'. Load parse getenv (Parsed c) = Inr cfg' \<and> MergeTime (Rules cfg') = 6 * Hour))"
proof -
  from Load_NoFile_Rules[OF assms, of parse] obtain cfg where
    l: "Load parse getenv NoFile = Inr cfg" and
    r: "ApprovalTime (Rules cfg) = 2 * Hour" "MergeReminderTime (Rules cfg) = 4 * Hour"
       "MergeTime (Rules cfg) = 4 * Hour" "DraftTime (Rules cfg) = 96 * Hour"
    by blast
  have pos: "0 < Hour" by (simp add: Hour_def Minute_def Second_def Millisecond_def)
  have 1: "\<forall>env e pr. \<not> Draft pr \<and> time_Since (age_clock env) (CreatedAt pr) = 5 * Hour \<and>
           ReviewCount pr = 3 \<longrightarrow>
         processPR cfg env e pr = spec_perform cfg env e pr (5 * Hour) (Some Escalation)"
  proof (intro allI impI)
    fix env :: Env and e :: EmailNotifier and pr :: PullRequest
    assume a: "\<not> Draft pr \<and> time_Since (age_clock env) (CreatedAt pr) = 5 * Hour \<and>
           ReviewCount pr = 3"
    then have "spec_classify (Rules cfg) pr (5 * Hour) = Some Escalation"
      using pos r by (simp add: spec_classify_def spec_rules_def)
    with a show "processPR cfg env e pr =
        spec_perform cfg env e pr (5 * Hour) (Some Escalation)"
      using processPR_perform[of cfg env e pr] by simp
  qed
  have never: "\<And>pr age. spec_classify (Rules cfg) pr age \<noteq> Some MergeReminder"
    using r by (simp add: spec_classify_def spec_rules_def)
  have 2: "\<forall>env e pr. processPR cfg env e pr \<noteq>
         spec_perform cfg env e pr (time_Since (age_clock env) (CreatedAt pr))
           (Some MergeReminder)"
  proof (intro allI notI)
    fix env :: Env and e :: EmailNotifier and pr :: PullRequest
    assume "processPR cfg env e pr =
      spec_perform cfg env e pr (time_Since (age_clock env) (CreatedAt pr)) (Some MergeReminder)"
    then have "spec_perform cfg env e pr (time_Since (age_clock env) (CreatedAt pr))
        (Some MergeReminder) =
      spec_perform cfg env e pr (time_Since (age_clock env) (CreatedAt pr))
        (spec_classify (Rules cfg) pr (time_Since (age_clock env) (CreatedAt pr)))"
      by (simp add: processPR_perform)
    from spec_perform_inj[OF this]
      never[of pr "time_Since (age_clock env) (CreatedAt pr)"]
    show False by metis
  qed
  have 3: "\<forall>c. MergeTime (Rules c) = 0 \<longrightarrow>
         (\<exists>cfg'. Load parse getenv (Parsed c) = Inr cfg' \<and> MergeTime (Rules cfg') = 6 * Hour)"
    by (simp add: Load_def setDefaults_def Let_def)
  from l r 1 2 3 show ?thesis by blast
qed

text \<open>The empty environment: the merge time is 4h and the third scenario is escalated.\<close>
theorem Load_without_file_merges_at_4h_witness:
  "\<exists>cfg. Load noParse noEnv NoFile = Inr cfg \<and>
     MergeReminderTime (Rules cfg) = 4 * Hour \<and> MergeTime (Rules cfg) = 4 * Hour \<and>
     processPR cfg (demoEnv 5 True) demoNotifier (demoPR 3 False 3) =
       spec_perform cfg (demoEnv 5 True) demoNotifier (demoPR 3 False 3) (5 * Hour)
         (Some Escalation) \<and>
     fst (processPR cfg (demoEnv 5 True) demoNotifier (demoPR 3 False 3)) =
       emptyResult\<lparr>Escalations := 1\<rparr>"
proof -
  have e: "noEnv ''APPROVAL_TIME'' = []" "noEnv ''MERGE_TIME'' = []"
    by (simp_all add: noEnv_def)
  from Load_without_file_merges_at_4h[OF e, of noParse] obtain cfg where
    l: "Load noParse noEnv NoFile = Inr cfg" and
    r: "MergeReminderTime (Rules cfg) = 4 * Hour" "MergeTime (Rules cfg) = 4 * Hour" and
    s: "\<forall>env e pr. \<not> Draft pr \<and> time_Since (age_clock env) (CreatedAt pr) = 5 * Hour \<and>
           ReviewCount pr = 3 \<longrightarrow>
         processPR cfg env e pr = spec_perform cfg env e pr (5 * Hour) (Some Escalation)"
    by blast
  have p: "processPR cfg (demoEnv 5 True) demoNotifier (demoPR 3 False 3) =
       spec_perform cfg (demoEnv 5 True) demoNotifier (demoPR 3 False 3) (5 * Hour)
         (Some Escalation)"
    using s demo_age[of 5 True 3 False 3] by (simp add: demoPR_simps)
  have q: "fst (spec_perform cfg (demoEnv 5 True) demoNotifier (demoPR 3 False 3) (5 * Hour)
         (Some Escalation)) = emptyResult\<lparr>Escalations := 1\<rparr>"
    by (simp add: spec_perform_def spec_dispatch_def spec_outcome_def countOne_def send_defs
        dialLoop_3 demoEnv_def demoNotifier_def Let_def split: prod.splits)
  show ?thesis
    by (intro exI[of _ cfg] conjI) (use l r p q in simp_all)
qed

text \<open>
  C7. For every list of reviews, \<open>checkPRApprovals\<close> returns as review count the number
  of reviews whose state is not COMMENTED, and as approved flag whether some review has
  state APPROVED. Changing the approved flag of a snapshot changes neither the result of
  \<open>processPR\<close>, nor the notifier, nor the recipients of what is delivered: the rules
  read the count only.
\<close>
theorem review_count_counts_non_comment_reviews:
  "checkPRApprovals (Inr reviews) =
     (\<exists>r \<in> set reviews. GetState r = ''APPROVED'',
      int (length (filter (\<lambda>r. GetState r \<noteq> ''COMMENTED'') reviews)),
      None) \<and>
   fst (processPR cfg env e (pr\<lparr>Approved := b\<rparr>)) = fst (processPR cfg env e pr) \<and>
   fst (snd (processPR cfg env e (pr\<lparr>Approved := b\<rparr>))) = fst (snd (processPR cfg env e pr)) \<and>
   map msg_To (snd (snd (processPR cfg env e (pr\<lparr>Approved := b\<rparr>)))) =
     map msg_To (snd (snd (processPR cfg env e pr)))"
proof -
  have "checkPRApprovals (Inr reviews) =
     (\<exists>r \<in> set reviews. GetState r = ''APPROVED'',
      int (length (filter (\<lambda>r. GetState r \<noteq> ''COMMENTED'') reviews)),
      None)"
    by (simp add: checkPRApprovals_def reviewLoop_eq)
  moreover have "processPR cfg env e (pr\<lparr>Approved := b\<rparr>) =
      spec_perform cfg env e (pr\<lparr>Approved := b\<rparr>) (time_Since (age_clock env) (CreatedAt pr))
        (spec_classify (Rules cfg) pr (time_Since (age_clock env) (CreatedAt pr)))"
    using processPR_perform[of cfg env e "pr\<lparr>Approved := b\<rparr>"]
    by (simp add: spec_classify_Approved)
  ultimately show ?thesis
    using spec_perform_Approved[where cfg = cfg and env = env and e = e and pr = pr and b = b] by (simp add: processPR_perform[of cfg env e pr])
qed

text \<open>
  Two reviews that are neither comments nor approvals count as two; a snapshot with two
  counted reviews gets the merge reminder whatever its approved flag.
\<close>
theorem review_count_counts_non_comment_reviews_witness:
  "checkPRApprovals (Inr [\<lparr>GetState = ''CHANGES_REQUESTED''\<rparr>, \<lparr>GetState = ''COMMENTED''\<rparr>,
       \<lparr>GetState = ''DISMISSED''\<rparr>]) = (False, 2, None) \<and>
   checkPRApprovals (Inr [\<lparr>GetState = ''APPROVED''\<rparr>, \<lparr>GetState = ''COMMENTED''\<rparr>]) =
     (True, 1, None) \<and>
   fst (processPR demoConfig (demoEnv 5 True) demoNotifier ((demoPR 1 False 2)\<lparr>Approved := True\<rparr>)) =
     emptyResult\<lparr>MergeReminders := 1\<rparr>"
proof -
  have "fst (processPR demoConfig (demoEnv 5 True) demoNotifier (demoPR 1 False 2)) =
      emptyResult\<lparr>MergeReminders := 1\<rparr>"
    by (simp add: demo_defs processPR_def send_defs dialLoop_3 emptyResult_def)
  then show ?thesis
    using review_count_counts_non_comment_reviews
      [where reviews = "[\<lparr>GetState = ''CHANGES_REQUESTED''\<rparr>, \<lparr>GetState = ''COMMENTED''\<rparr>,
            \<lparr>GetState = ''DISMISSED''\<rparr>]" and cfg = demoConfig and env = "demoEnv 5 True"
          and e = demoNotifier and pr = "demoPR 1 False 2" and b = True]
      review_count_counts_non_comment_reviews
      [where reviews = "[\<lparr>GetState = ''APPROVED''\<rparr>, \<lparr>GetState = ''COMMENTED''\<rparr>]" and cfg = demoConfig and env = "demoEnv 5 True"
          and e = demoNotifier and pr = "demoPR 1 False 2" and b = True]
    by simp
qed

text \<open>
  C8. A configured worker count of 0 or less makes \<open>CheckPRs\<close> behave exactly as with
  the count 5: the run has five workers and returns no error. A count of 1 or more is the
  number of workers of the run.
\<close>
theorem worker_count_default:
  "(Concurrency (Debug cfg) \<le> 0 \<longrightarrow>
      CheckPRs cfg fetched e ctxDone evs =
        CheckPRs (cfg\<lparr>Debug := (Debug cfg)\<lparr>Concurrency := 5\<rparr>\<rparr>) fetched e ctxDone evs) \<and>
   (\<forall>prs err s. CheckPRs cfg (Inr prs) e ctxDone evs = Some (err, Some s) \<longrightarrow>
      err = None \<and>
      int (length (workers s)) =
        (if Concurrency (Debug cfg) \<le> 0 then 5 else Concurrency (Debug cfg)))"
proof (intro conjI allI impI)
  assume "Concurrency (Debug cfg) \<le> 0"
  moreover have "exec cfg = exec (cfg\<lparr>Debug := (Debug cfg)\<lparr>Concurrency := 5\<rparr>\<rparr>)"
    by (intro ext exec_Rules) simp
  ultimately show "CheckPRs cfg fetched e ctxDone evs =
      CheckPRs (cfg\<lparr>Debug := (Debug cfg)\<lparr>Concurrency := 5\<rparr>\<rparr>) fetched e ctxDone evs"
    by (simp add: CheckPRs_def processPRsConcurrently_def Let_def split: sum.splits)
next
  fix prs err s
  assume a: "CheckPRs cfg (Inr prs) e ctxDone evs = Some (err, Some s)"
  then obtain n where n: "0 < n"
    "n = (if Concurrency (Debug cfg) \<le> 0 then 5 else Concurrency (Debug cfg))"
    "exec cfg evs (initial e ctxDone prs n) = Some s" and err: "err = None"
    by (elim CheckPRs_SomeD) auto
  from err show "err = None" .
  from exec_load[OF n(3)] n(1) have "int (length (workers s)) = n"
    by (simp add: initial_def)
  with n(2) show "int (length (workers s)) =
      (if Concurrency (Debug cfg) \<le> 0 then 5 else Concurrency (Debug cfg))"
    by simp
qed

text \<open>A run configured with -3 workers has five; a run configured with 2 has two.\<close>
theorem worker_count_default_witness:
  "(\<exists>s. CheckPRs (demoConfig\<lparr>Debug := (Debug demoConfig)\<lparr>Concurrency := - 3\<rparr>\<rparr>) (Inr [])
          demoNotifier False (idleRun 5) = Some (None, Some s) \<and> length (workers s) = 5) \<and>
   (\<exists>s. CheckPRs (demoConfig\<lparr>Debug := (Debug demoConfig)\<lparr>Concurrency := 2\<rparr>\<rparr>) (Inr [])
          demoNotifier False (idleRun 2) = Some (None, Some s) \<and> length (workers s) = 2)"
proof -
  have a: "CheckPRs (demoConfig\<lparr>Debug := (Debug demoConfig)\<lparr>Concurrency := - 3\<rparr>\<rparr>) (Inr [])
      demoNotifier False (idleRun 5) \<noteq> None"
    by code_simp
  have b: "CheckPRs (demoConfig\<lparr>Debug := (Debug demoConfig)\<lparr>Concurrency := 2\<rparr>\<rparr>) (Inr [])
      demoNotifier False (idleRun 2) \<noteq> None"
    by code_simp
  from a obtain s1 where s1:
    "CheckPRs (demoConfig\<lparr>Debug := (Debug demoConfig)\<lparr>Concurrency := - 3\<rparr>\<rparr>) (Inr [])
      demoNotifier False (idleRun 5) = Some (None, Some s1)"
    using CheckPRs_returned by blast
  from b obtain s2 where s2:
    "CheckPRs (demoConfig\<lparr>Debug := (Debug demoConfig)\<lparr>Concurrency := 2\<rparr>\<rparr>) (Inr [])
      demoNotifier False (idleRun 2) = Some (None, Some s2)"
    using CheckPRs_returned by blast
  from worker_count_default
    [where cfg = "demoConfig\<lparr>Debug := (Debug demoConfig)\<lparr>Concurrency := - 3\<rparr>\<rparr>"
      and e = demoNotifier and ctxDone = False and evs = "idleRun 5", THEN conjunct2,
      rule_format, OF s1]
  have "length (workers s1) = 5" by simp
  moreover from worker_count_default
    [where cfg = "demoConfig\<lparr>Debug := (Debug demoConfig)\<lparr>Concurrency := 2\<rparr>\<rparr>"
      and e = demoNotifier and ctxDone = False and evs = "idleRun 2", THEN conjunct2,
      rule_format, OF s2]
  have "length (workers s2) = 2" by simp
  ultimately show ?thesis using s1 s2 by blast
qed

text \<open>
  C9. An escalation is sent to the configured recipients followed by the escalation
  address when that address is not empty, and to the configured recipients alone when it
  is empty; the three other notifications go to the configured recipients alone. This
  holds for the notification data handed to \<open>sendNotification\<close> and for every message
  delivered.
\<close>
theorem escalation_recipients:
  "SendEscalation env e pr age threshold escalationEmail =
     sendNotification env e
       \<lparr>Type = Escalation, PullRequest = pr, Age = age, Threshold = threshold,
        Recipients = (if escalationEmail = [] then To (config e)
                      else To (config e) @ [escalationEmail])\<rparr> \<and>
   (\<forall>m \<in> set (snd (snd (SendEscalation env e pr age threshold escalationEmail))).
      Type (msg_Data m) = Escalation \<and>
      msg_To m = (if escalationEmail = [] then To (config e)
                  else To (config e) @ [escalationEmail])) \<and>
   (\<forall>m \<in> set (snd (snd (SendApprovalReminder env e pr age threshold))).
      Type (msg_Data m) = ApprovalReminder \<and> msg_To m = To (config e)) \<and>
   (\<forall>m \<in> set (snd (snd (SendMergeReminder env e pr age threshold))).
      Type (msg_Data m) = MergeReminder \<and> msg_To m = To (config e)) \<and>
   (\<forall>m \<in> set (snd (snd (SendDraftOverdue env e pr age threshold))).
      Type (msg_Data m) = DraftOverdue \<and> msg_To m = To (config e)) \<and>
   (\<forall>k. k \<noteq> Escalation \<longrightarrow>
      (\<exists>d. spec_dispatch cfg env e pr age k = sendNotification env e d \<and> Type d = k \<and>
           Recipients d = To (config e)))"
proof -
  have esc: "SendEscalation env e pr age threshold escalationEmail =
     sendNotification env e
       \<lparr>Type = Escalation, PullRequest = pr, Age = age, Threshold = threshold,
        Recipients = (if escalationEmail = [] then To (config e)
                      else To (config e) @ [escalationEmail])\<rparr>"
    by (simp add: SendEscalation_def Let_def)
  have 1: "\<forall>m \<in> set (snd (snd (SendEscalation env e pr age threshold escalationEmail))).
      Type (msg_Data m) = Escalation \<and>
      msg_To m = (if escalationEmail = [] then To (config e)
                  else To (config e) @ [escalationEmail])"
    unfolding esc by (auto dest!: sendNotification_message)
  have 2: "\<forall>m \<in> set (snd (snd (SendApprovalReminder env e pr age threshold))).
      Type (msg_Data m) = ApprovalReminder \<and> msg_To m = To (config e)"
    unfolding SendApprovalReminder_def by (auto dest!: sendNotification_message)
  have 3: "\<forall>m \<in> set (snd (snd (SendMergeReminder env e pr age threshold))).
      Type (msg_Data m) = MergeReminder \<and> msg_To m = To (config e)"
    unfolding SendMergeReminder_def by (auto dest!: sendNotification_message)
  have 4: "\<forall>m \<in> set (snd (snd (SendDraftOverdue env e pr age threshold))).
      Type (msg_Data m) = DraftOverdue \<and> msg_To m = To (config e)"
    unfolding SendDraftOverdue_def by (auto dest!: sendNotification_message)
  have 5: "\<forall>k. k \<noteq> Escalation \<longrightarrow>
      (\<exists>d. spec_dispatch cfg env e pr age k = sendNotification env e d \<and> Type d = k \<and>
           Recipients d = To (config e))"
  proof (intro allI impI)
    fix k :: NotificationType
    assume "k \<noteq> Escalation"
    then show "\<exists>d. spec_dispatch cfg env e pr age k = sendNotification env e d \<and> Type d = k \<and>
           Recipients d = To (config e)"
      by (cases k)
        (auto simp: spec_dispatch_def SendApprovalReminder_def SendMergeReminder_def
          SendDraftOverdue_def intro!: exI)
  qed
  from esc 1 2 3 4 5 show ?thesis by blast
qed

text \<open>Delivered escalations with and without an escalation address, and a reminder.\<close>
theorem escalation_recipients_witness:
  "map msg_To (snd (snd (SendEscalation (demoEnv 7 True) demoNotifier (demoPR 1 False 0)
       (7 * Hour) (6 * Hour) ''lead@example.com''))) =
     [[''team@example.com'', ''lead@example.com'']] \<and>
   map msg_To (snd (snd (SendEscalation (demoEnv 7 True) demoNotifier (demoPR 1 False 0)
       (7 * Hour) (6 * Hour) []))) = [[''team@example.com'']] \<and>
   map msg_To (snd (snd (SendApprovalReminder (demoEnv 3 True) demoNotifier (demoPR 1 False 0)
       (3 * Hour) (2 * Hour)))) = [[''team@example.com'']]"
proof -
  have to: "To (config demoNotifier) = [''team@example.com'']"
    by (simp add: demoNotifier_def demoConfig_def setDefaults_def)
  have n: "\<not> closed demoNotifier" "\<not> skipEmails demoNotifier"
    by (simp_all add: demoNotifier_def)
  have 1: "length (snd (snd (SendEscalation (demoEnv 7 True) demoNotifier (demoPR 1 False 0)
       (7 * Hour) (6 * Hour) ''lead@example.com''))) = 1"
    using n by (simp add: send_defs dialLoop_3 demoEnv_def Let_def)
  have 2: "length (snd (snd (SendEscalation (demoEnv 7 True) demoNotifier (demoPR 1 False 0)
       (7 * Hour) (6 * Hour) []))) = 1"
    using n by (simp add: send_defs dialLoop_3 demoEnv_def Let_def)
  have 3: "length (snd (snd (SendApprovalReminder (demoEnv 3 True) demoNotifier
       (demoPR 1 False 0) (3 * Hour) (2 * Hour)))) = 1"
    using n by (simp add: send_defs dialLoop_3 demoEnv_def Let_def)
  have one: "\<And>xs f v. length xs = 1 \<Longrightarrow> \<forall>m \<in> set xs. f m = v \<Longrightarrow> map f xs = [v]"
    by (case_tac xs) auto
  note T = escalation_recipients[where e = demoNotifier and cfg = demoConfig]
  have a: "map msg_To (snd (snd (SendEscalation (demoEnv 7 True) demoNotifier (demoPR 1 False 0)
       (7 * Hour) (6 * Hour) ''lead@example.com''))) =
     [[''team@example.com'', ''lead@example.com'']]"
    using T[where env = "demoEnv 7 True" and pr = "demoPR 1 False 0" and age = "7 * Hour"
        and threshold = "6 * Hour" and escalationEmail = "''lead@example.com''"]
    by (intro one[OF 1]) (simp add: to)
  have b: "map msg_To (snd (snd (SendEscalation (demoEnv 7 True) demoNotifier (demoPR 1 False 0)
       (7 * Hour) (6 * Hour) []))) = [[''team@example.com'']]"
    using T[where env = "demoEnv 7 True" and pr = "demoPR 1 False 0" and age = "7 * Hour"
        and threshold = "6 * Hour" and escalationEmail = "[]"]
    by (intro one[OF 2]) (simp add: to)
  have c: "map msg_To (snd (snd (SendApprovalReminder (demoEnv 3 True) demoNotifier
       (demoPR 1 False 0) (3 * Hour) (2 * Hour)))) = [[''team@example.com'']]"
    using T[where env = "demoEnv 3 True" and pr = "demoPR 1 False 0" and age = "3 * Hour"
        and threshold = "2 * Hour" and escalationEmail = "[]"]
    by (intro one[OF 3]) (simp add: to)
  from a b c show ?thesis by blast
qed

text \<open>
  C10. On a closed notifier every sequence of operations behaves as follows: each of the
  four send operations returns the error "email notifier is closed" and delivers nothing,
  \<open>Close\<close> does nothing, and the notifier, its \<open>lastSent\<close> included, stays as
  \<open>Close\<close> left it. \<open>Close\<close> does not touch \<open>lastSent\<close> and is idempotent.
\<close>
theorem closed_notifier_refuses:
  "notifierOps ops (Close e) = (map (\<lambda>(env, op). afterClose op) ops, Close e) \<and>
   closed (Close e) \<and> lastSent (Close e) = lastSent e \<and> Close (Close e) = Close e"
proof -
  have c: "closed (Close e)" by (simp add: Close_def)
  have s: "\<And>env d e'. closed e' \<Longrightarrow> sendNotification env e' d =
      (Some (Errorf ''email notifier is closed'' [] None), e', [])"
    by (simp add: sendNotification_def)
  have op: "\<And>env op e'. closed e' \<Longrightarrow>
      notifierOp env op e' = (fst (afterClose op), e', snd (afterClose op))"
    subgoal for env op e'
      by (cases op)
        (simp_all add: afterClose_def s SendApprovalReminder_def SendMergeReminder_def
          SendEscalation_def SendDraftOverdue_def Let_def Close_def)
    done
  have "\<And>e'. closed e' \<Longrightarrow> notifierOps ops e' = (map (\<lambda>(env, op). afterClose op) ops, e')"
    by (induction ops) (auto simp: op)
  with c show ?thesis by (simp add: Close_def)
qed

text \<open>An escalation, a second close and three more sends after a close.\<close>
theorem closed_notifier_refuses_witness:
  "notifierOps
     [(demoEnv 7 True, OpEscalation (demoPR 1 False 0) (7 * Hour) (6 * Hour) ''lead@example.com''),
      (demoEnv 7 True, OpClose),
      (demoEnv 8 True, OpApprovalReminder (demoPR 2 False 0) (3 * Hour) (2 * Hour)),
      (demoEnv 8 True, OpMergeReminder (demoPR 3 False 2) (5 * Hour) (4 * Hour)),
      (demoEnv 8 True, OpDraftOverdue (demoPR 4 True 0) (100 * Hour) (96 * Hour))]
     (Close demoNotifier) =
   ([(Some (Errorf ''email notifier is closed'' [] None), []),
     (None, []),
     (Some (Errorf ''email notifier is closed'' [] None), []),
     (Some (Errorf ''email notifier is closed'' [] None), []),
     (Some (Errorf ''email notifier is closed'' [] None), [])],
    demoNotifier\<lparr>closed := True\<rparr>)"
  using closed_notifier_refuses[where e = demoNotifier and ops =
    "[(demoEnv 7 True, OpEscalation (demoPR 1 False 0) (7 * Hour) (6 * Hour) ''lead@example.com''),
      (demoEnv 7 True, OpClose),
      (demoEnv 8 True, OpApprovalReminder (demoPR 2 False 0) (3 * Hour) (2 * Hour)),
      (demoEnv 8 True, OpMergeReminder (demoPR 3 False 2) (5 * Hour) (4 * Hour)),
      (demoEnv 8 True, OpDraftOverdue (demoPR 4 True 0) (100 * Hour) (96 * Hour))]"]
  by (simp add: afterClose_def Close_def demoNotifier_def)

end
